theory Spec2Isabelle
  imports Complex_Main
begin

section \<open>numpy values and arrays\<close>

text \<open>
  The parameter vectors and the system matrices of the notebook are numpy float64 arrays.
  In the model of the object and of the filter a finite entry is the real number it
  stands for and \<open>NaN\<close> is numpy's nan; the arithmetic on such entries is exact. What
  float64 arithmetic does to \<open>x ** 2\<close> and \<open>x ** 0.5\<close> (rounding, underflow,
  overflow) is modelled in the next section, for the claim that depends on it.
\<close>

datatype float64 = Num real | NaN

fun is_real :: "float64 \<Rightarrow> bool" where
  "is_real (Num x) = True"
| "is_real NaN = False"

fun nonneg :: "float64 \<Rightarrow> bool" where
  "nonneg (Num x) = (0 \<le> x)"
| "nonneg NaN = False"

text \<open>
  \<open>x ** 2\<close> on one entry, read exactly. The value float64 arithmetic gives is the
  rounding of this one (\<open>pow2_binary64\<close> below); rounding keeps the sign.
\<close>

fun pow2 :: "float64 \<Rightarrow> float64" where
  "pow2 (Num x) = Num (x\<^sup>2)"
| "pow2 NaN = NaN"

type_synonym ndarray = "float64 list"

text \<open>A time-invariant system matrix, as the list of its rows.\<close>

type_synonym matrix = "float64 list list"

datatype error = IndexError

text \<open>\<open>params[i]\<close> for a literal index \<open>i \<ge> 0\<close>.\<close>

definition getitem :: "ndarray \<Rightarrow> nat \<Rightarrow> error + float64" where
  "getitem p i = (if i < length p then Inr (p ! i) else Inl IndexError)"

text \<open>\<open>A[i, j]\<close> and \<open>A[i, j] = v\<close> for literal indices.\<close>

definition getitem2 :: "matrix \<Rightarrow> nat \<Rightarrow> nat \<Rightarrow> error + float64" where
  "getitem2 A i j =
     (if i < length A \<and> j < length (A ! i) then Inr (A ! i ! j) else Inl IndexError)"

definition setitem2 :: "matrix \<Rightarrow> nat \<Rightarrow> nat \<Rightarrow> float64 \<Rightarrow> error + matrix" where
  "setitem2 A i j v =
     (if i < length A \<and> j < length (A ! i) then Inr (A[i := (A ! i)[j := v]])
      else Inl IndexError)"

text \<open>Two matrices that agree everywhere except possibly at entry \<open>[0, 0]\<close>.\<close>

fun same_except00 :: "matrix \<Rightarrow> matrix \<Rightarrow> bool" where
  "same_except00 ((a # as) # rs) ((b # bs) # rs') = (as = bs \<and> rs = rs')"
| "same_except00 A B = (A = B)"

section \<open>float64 arithmetic\<close>

text \<open>
  A float64 value as the hardware has it: a finite number, an infinity, or nan. The
  sign of zero is not modelled (numpy compares \<open>-0.0\<close> and \<open>0.0\<close> equal).
\<close>

datatype binary64 = Finite real | PosInf | NegInf | NotANumber

text \<open>Rounding a real to the nearest integer, a tie to the even one.\<close>

definition round_nearest_even :: "real \<Rightarrow> int" where
  "round_nearest_even t =
     (let f = \<lfloor>t\<rfloor>; d = t - of_int f in
      if d < 1 / 2 then f else if 1 / 2 < d then f + 1 else if even f then f else f + 1)"

text \<open>
  The exponent that fixes the spacing of the float64 values around \<open>x \<noteq> 0\<close>: the
  binary exponent of \<open>x\<close>, and \<open>-1022\<close> below the normal range (gradual underflow).
\<close>

definition exponent_binary64 :: "real \<Rightarrow> int" where
  "exponent_binary64 x = max \<lfloor>log 2 \<bar>x\<bar>\<rfloor> (- 1022)"

text \<open>
  The magnitude of the float64 value nearest to \<open>x\<close>: the nearest multiple of the
  spacing \<open>2 ^ (e - 52)\<close> (53 significant bits), before the overflow check.
\<close>

definition magnitude_binary64 :: "real \<Rightarrow> real" where
  "magnitude_binary64 x =
     (let q = 2 powi (exponent_binary64 x - 52)
      in of_int (round_nearest_even (\<bar>x\<bar> / q)) * q)"

text \<open>
  IEEE 754 rounding to nearest of an exact result: a result that rounds to
  \<open>2 ^ 1024\<close> or more overflows to the infinity of its sign; a result too small
  rounds to zero.
\<close>

definition round_binary64 :: "real \<Rightarrow> binary64" where
  "round_binary64 x =
     (if x = 0 then Finite 0
      else if 2 ^ 1024 \<le> magnitude_binary64 x then (if 0 < x then PosInf else NegInf)
      else Finite (if 0 < x then magnitude_binary64 x else - magnitude_binary64 x))"

text \<open>The reals that are float64 values.\<close>

definition is_binary64 :: "real \<Rightarrow> bool" where
  "is_binary64 x = (round_binary64 x = Finite x)"

text \<open>
  \<open>x ** 2\<close> on one float64 entry, as numpy computes it: the product \<open>x * x\<close>,
  rounded.
\<close>

fun pow2_binary64 :: "binary64 \<Rightarrow> binary64" where
  "pow2_binary64 (Finite x) = round_binary64 (x * x)"
| "pow2_binary64 PosInf = PosInf"
| "pow2_binary64 NegInf = PosInf"
| "pow2_binary64 NotANumber = NotANumber"

text \<open>
  \<open>x ** 0.5\<close> on one float64 entry, as numpy computes it: the square root,
  rounded; nan for a negative base.
\<close>

fun pow_half_binary64 :: "binary64 \<Rightarrow> binary64" where
  "pow_half_binary64 (Finite x) = (if x < 0 then NotANumber else round_binary64 (sqrt x))"
| "pow_half_binary64 PosInf = PosInf"
| "pow_half_binary64 NegInf = NotANumber"
| "pow_half_binary64 NotANumber = NotANumber"

text \<open>\<open>numpy.abs\<close> on one float64 entry.\<close>

fun abs_binary64 :: "binary64 \<Rightarrow> binary64" where
  "abs_binary64 (Finite x) = Finite \<bar>x\<bar>"
| "abs_binary64 PosInf = PosInf"
| "abs_binary64 NegInf = PosInf"
| "abs_binary64 NotANumber = NotANumber"

fun nonneg_binary64 :: "binary64 \<Rightarrow> bool" where
  "nonneg_binary64 (Finite x) = (0 \<le> x)"
| "nonneg_binary64 PosInf = True"
| "nonneg_binary64 NegInf = False"
| "nonneg_binary64 NotANumber = False"

text \<open>
  Two finite values that differ by at most \<open>\<bar>x\<bar> / 2 ^ 51 + 1 / 2 ^ 1075\<close>: four
  units of relative rounding error and half the smallest positive float64.
\<close>

fun close_binary64 :: "binary64 \<Rightarrow> binary64 \<Rightarrow> bool" where
  "close_binary64 (Finite x) (Finite y) = (\<bar>y - x\<bar> \<le> \<bar>x\<bar> / 2 ^ 51 + 1 / 2 ^ 1075)"
| "close_binary64 a b = False"

text \<open>
  A finite non-negative entry in the range of float64: zero, or between the smallest
  positive float64 \<open>2 ^ -1074\<close> and the largest one \<open>2 ^ 1024 - 2 ^ 971\<close>.
\<close>

fun finite_nonneg_binary64 :: "binary64 \<Rightarrow> bool" where
  "finite_nonneg_binary64 (Finite x) =
     ((x = 0 \<or> 1 / 2 ^ 1074 \<le> x) \<and> x \<le> 2 ^ 1024 - 2 ^ 971)"
| "finite_nonneg_binary64 a = False"

text \<open>
  A float64 entry whose square neither underflows nor overflows: zero, or of magnitude
  in \<open>[2 ^ -511, 2 ^ 512)\<close>.
\<close>

fun normal_square_binary64 :: "binary64 \<Rightarrow> bool" where
  "normal_square_binary64 (Finite u) =
     (is_binary64 u \<and> (u = 0 \<or> 1 / 2 ^ 511 \<le> \<bar>u\<bar> \<and> \<bar>u\<bar> < 2 ^ 512))"
| "normal_square_binary64 a = False"

section \<open>The model object\<close>

text \<open>
  The state of an \<open>MLEModel\<close> instance that the notebook's classes read and write: the
  named system matrices (reached through \<open>self[name, i, j]\<close>) and the flag
  \<open>self.ssm.filter_concentrated\<close>.
\<close>

record model =
  design :: matrix
  obs_intercept :: matrix
  obs_cov :: matrix
  transition :: matrix
  state_intercept :: matrix
  selection :: matrix
  state_cov :: matrix
  filter_concentrated :: bool

text \<open>
  A method mutates \<open>self\<close> and may raise: it returns the exception raised, if any,
  together with the object as the method left it (a mutation made before the raise
  stays).
\<close>

type_synonym outcome = "error option \<times> model"

definition then_do :: "outcome \<Rightarrow> (model \<Rightarrow> outcome) \<Rightarrow> outcome" where
  "then_do r f = (case r of (None, m) \<Rightarrow> f m | (Some e, m) \<Rightarrow> (Some e, m))"

definition set_design :: "nat \<Rightarrow> nat \<Rightarrow> float64 \<Rightarrow> model \<Rightarrow> outcome" where
  "set_design i j v m =
     (case setitem2 (design m) i j v of
        Inl e \<Rightarrow> (Some e, m)
      | Inr A \<Rightarrow> (None, m\<lparr>design := A\<rparr>))"

definition set_transition :: "nat \<Rightarrow> nat \<Rightarrow> float64 \<Rightarrow> model \<Rightarrow> outcome" where
  "set_transition i j v m =
     (case setitem2 (transition m) i j v of
        Inl e \<Rightarrow> (Some e, m)
      | Inr A \<Rightarrow> (None, m\<lparr>transition := A\<rparr>))"

definition set_selection :: "nat \<Rightarrow> nat \<Rightarrow> float64 \<Rightarrow> model \<Rightarrow> outcome" where
  "set_selection i j v m =
     (case setitem2 (selection m) i j v of
        Inl e \<Rightarrow> (Some e, m)
      | Inr A \<Rightarrow> (None, m\<lparr>selection := A\<rparr>))"

definition set_state_cov :: "nat \<Rightarrow> nat \<Rightarrow> float64 \<Rightarrow> model \<Rightarrow> outcome" where
  "set_state_cov i j v m =
     (case setitem2 (state_cov m) i j v of
        Inl e \<Rightarrow> (Some e, m)
      | Inr A \<Rightarrow> (None, m\<lparr>state_cov := A\<rparr>))"

definition set_obs_cov :: "nat \<Rightarrow> nat \<Rightarrow> float64 \<Rightarrow> model \<Rightarrow> outcome" where
  "set_obs_cov i j v m =
     (case setitem2 (obs_cov m) i j v of
        Inl e \<Rightarrow> (Some e, m)
      | Inr A \<Rightarrow> (None, m\<lparr>obs_cov := A\<rparr>))"

text \<open>\<open>numpy.zeros((r, c))\<close>.\<close>

definition zeros :: "nat \<Rightarrow> nat \<Rightarrow> matrix" where
  "zeros r c = replicate r (replicate c (Num 0))"

text \<open>
  Modelled from the spec: the base class \<open>MLEModel\<close> is library code that is not in the
  notebook. Its constructor ("model construction with a given number of state
  variables") leaves every system matrix filled with zeros, of the shape that
  \<open>k_endog\<close> observed series and \<open>k_states\<close> state variables give, and the
  concentration flag off.
\<close>

definition MLEModel_init :: "nat \<Rightarrow> nat \<Rightarrow> model" where
  "MLEModel_init k_endog k_states =
     \<lparr> design = zeros k_endog k_states,
       obs_intercept = zeros k_endog 1,
       obs_cov = zeros k_endog k_endog,
       transition = zeros k_states k_states,
       state_intercept = zeros k_states 1,
       selection = zeros k_states k_states,
       state_cov = zeros k_states k_states,
       filter_concentrated = False \<rparr>"

text \<open>
  Modelled from the spec: \<open>MLEModel.update\<close>, the base-class half of the "parameter
  transform/untransform hooks" and of the update contract, is library code that is not
  in the notebook. It hands back the constrained parameters: the ones it was given
  when the keyword \<open>transformed\<close> is true (the default), and the subclass's
  \<open>transform_params\<close> of them otherwise.
\<close>

definition MLEModel_update :: "(ndarray \<Rightarrow> ndarray) \<Rightarrow> bool \<Rightarrow> ndarray \<Rightarrow> ndarray" where
  "MLEModel_update transform_params transformed params =
     (if transformed then params else transform_params params)"

section \<open>class LocalLevel\<close>

definition LocalLevel_start_params :: ndarray where
  "LocalLevel_start_params = [Num 1, Num 1]"

definition LocalLevel_param_names :: "string list" where
  "LocalLevel_param_names = [''var.level'', ''var.irregular'']"

text \<open>
  \<open>__init__\<close>: \<open>m0\<close> is the object as \<open>super().__init__(endog, k_states=1,
  initialization='diffuse')\<close> left it.
\<close>

definition LocalLevel_init :: "model \<Rightarrow> outcome" where
  "LocalLevel_init m0 =
     then_do (then_do (set_design 0 0 (Num 1) m0)
       (set_transition 0 0 (Num 1)))
       (set_selection 0 0 (Num 1))"

text \<open>\<open>transform_params\<close>, read exactly.\<close>

definition LocalLevel_transform_params :: "ndarray \<Rightarrow> ndarray" where
  "LocalLevel_transform_params unconstrained = map pow2 unconstrained"

text \<open>\<open>transform_params\<close> and \<open>untransform_params\<close>, as float64 arithmetic computes them.\<close>

definition LocalLevel_transform_params_binary64 :: "binary64 list \<Rightarrow> binary64 list" where
  "LocalLevel_transform_params_binary64 unconstrained = map pow2_binary64 unconstrained"

definition LocalLevel_untransform_params_binary64 :: "binary64 list \<Rightarrow> binary64 list" where
  "LocalLevel_untransform_params_binary64 unconstrained = map pow_half_binary64 unconstrained"

text \<open>
  \<open>update\<close>: \<open>super_update\<close> stands for the call
  \<open>super().update(params, **kwargs)\<close> with the caller's keywords. Each right-hand
  side \<open>params[i]\<close> is read before its assignment is made.
\<close>

definition LocalLevel_update :: "(ndarray \<Rightarrow> ndarray) \<Rightarrow> model \<Rightarrow> ndarray \<Rightarrow> outcome" where
  "LocalLevel_update super_update m params0 =
     (let params = super_update params0 in
      case getitem params 0 of
        Inl e \<Rightarrow> (Some e, m)
      | Inr p0 \<Rightarrow>
          then_do (set_state_cov 0 0 p0 m)
            (\<lambda>m1. case getitem params 1 of
                     Inl e \<Rightarrow> (Some e, m1)
                   | Inr p1 \<Rightarrow> set_obs_cov 0 0 p1 m1))"

section \<open>class LocalLevelConcentrated\<close>

definition LocalLevelConcentrated_start_params :: ndarray where
  "LocalLevelConcentrated_start_params = [Num 1]"

definition LocalLevelConcentrated_param_names :: "string list" where
  "LocalLevelConcentrated_param_names = [''ratio.irregular'']"

text \<open>
  \<open>__init__\<close>: as in \<open>LocalLevel\<close>, then \<open>state_cov[0, 0] = 1\<close> and the
  flag \<open>self.ssm.filter_concentrated = True\<close>.
\<close>

definition LocalLevelConcentrated_init :: "model \<Rightarrow> outcome" where
  "LocalLevelConcentrated_init m0 =
     then_do (then_do (then_do (then_do (set_design 0 0 (Num 1) m0)
       (set_transition 0 0 (Num 1)))
       (set_selection 0 0 (Num 1)))
       (set_state_cov 0 0 (Num 1)))
       (\<lambda>m. (None, m\<lparr>filter_concentrated := True\<rparr>))"

text \<open>\<open>transform_params\<close>, read exactly.\<close>

definition LocalLevelConcentrated_transform_params :: "ndarray \<Rightarrow> ndarray" where
  "LocalLevelConcentrated_transform_params unconstrained = map pow2 unconstrained"

text \<open>\<open>transform_params\<close> and \<open>untransform_params\<close>, as float64 arithmetic computes them.\<close>

definition LocalLevelConcentrated_transform_params_binary64 ::
  "binary64 list \<Rightarrow> binary64 list" where
  "LocalLevelConcentrated_transform_params_binary64 unconstrained =
     map pow2_binary64 unconstrained"

definition LocalLevelConcentrated_untransform_params_binary64 ::
  "binary64 list \<Rightarrow> binary64 list" where
  "LocalLevelConcentrated_untransform_params_binary64 unconstrained =
     map pow_half_binary64 unconstrained"

text \<open>\<open>update\<close>: the one parameter goes to \<open>obs_cov[0, 0]\<close>.\<close>

definition LocalLevelConcentrated_update ::
  "(ndarray \<Rightarrow> ndarray) \<Rightarrow> model \<Rightarrow> ndarray \<Rightarrow> outcome" where
  "LocalLevelConcentrated_update super_update m params0 =
     (let params = super_update params0 in
      case getitem params 0 of
        Inl e \<Rightarrow> (Some e, m)
      | Inr p0 \<Rightarrow> set_obs_cov 0 0 p0 m)"

text \<open>
  A sequence of \<open>update\<close> calls on one object, each with its own keywords and
  parameters. The object lives on after a call that raised.
\<close>

fun updates ::
  "((ndarray \<Rightarrow> ndarray) \<Rightarrow> model \<Rightarrow> ndarray \<Rightarrow> outcome) \<Rightarrow>
   ((ndarray \<Rightarrow> ndarray) \<times> ndarray) list \<Rightarrow> model \<Rightarrow> model" where
  "updates upd [] m = m"
| "updates upd ((su, p) # calls) m = updates upd calls (snd (upd su m p))"

text \<open>Whether the entry \<open>[0, 0]\<close> of a matrix is there and is a non-negative number.\<close>

definition nonneg00 :: "matrix \<Rightarrow> bool" where
  "nonneg00 A = (case getitem2 A 0 0 of Inl e \<Rightarrow> False | Inr v \<Rightarrow> nonneg v)"

section \<open>The library's filtering pass and likelihood\<close>

text \<open>
  The Kalman filter, the likelihood and the concentration of the scale are code of the
  library \<open>MLEModel\<close> comes from; the notebook only sets the model up and calls
  \<open>fit\<close>. They are modelled here from the spec's description of the algorithm, for the
  model that both classes of the notebook define: one state, one observed series,
  design = transition = selection = 1 (\<open>y\<^sub>t = \<alpha>\<^sub>t + \<epsilon>\<^sub>t\<close>,
  \<open>\<alpha>\<^sub>t\<^sub>+\<^sub>1 = \<alpha>\<^sub>t + \<eta>\<^sub>t\<close>), with \<open>Q\<close> the entry of \<open>state_cov\<close> and \<open>H\<close> the entry of
  \<open>obs_cov\<close>. A missing observation is a nan entry of \<open>endog\<close>.
\<close>

text \<open>
  Modelled from the spec: the state of one filtering pass (library code, not in the
  notebook). Besides the predicted state and its variance it carries what the spec has
  the pass accumulate: the sum of squared normalized prediction errors
  (\<open>scale_sum\<close>), the number of observations that count (\<open>nobs_effective\<close>: not
  missing and not diffuse), the number of diffuse observations, and the sum of the
  logarithms of the prediction error variances, which the likelihood needs.
\<close>

record filter_state =
  predicted_state :: real
  predicted_state_cov :: real
  diffuse :: bool
  nobs_diffuse :: nat
  nobs_effective :: nat
  scale_sum :: real
  logdet_sum :: real

text \<open>
  Modelled from the spec: the start of a pass under \<open>initialization='diffuse'\<close>
  (library code, not in the notebook): nothing is known about the state and nothing
  has been accumulated.
\<close>

definition filter_init :: filter_state where
  "filter_init =
     \<lparr> predicted_state = 0, predicted_state_cov = 0, diffuse = True, nobs_diffuse = 0,
       nobs_effective = 0, scale_sum = 0, logdet_sum = 0 \<rparr>"

text \<open>
  Modelled from the spec: one period of the filtering recursion (library code, not in
  the notebook). A missing observation only moves the prediction on. The first
  observation that is there ends the diffuse period: it fixes the state (the next
  prediction is the observation, with variance \<open>H + Q\<close>) and is kept out of the
  accumulated sum and of its count. Every later observation has the prediction error
  \<open>v\<close> with variance \<open>F\<close>, adds \<open>v\<^sup>2 / F\<close> to the sum and one to the count.
  Where \<open>F\<close> is not positive the normalized error and the likelihood are undefined:
  the pass has no result.
\<close>

fun filter_step :: "real \<Rightarrow> real \<Rightarrow> filter_state \<Rightarrow> float64 \<Rightarrow> filter_state option" where
  "filter_step Q H s NaN = Some (s\<lparr>predicted_state_cov := predicted_state_cov s + Q\<rparr>)"
| "filter_step Q H s (Num y) =
     (if diffuse s then
        Some (s\<lparr>predicted_state := y, predicted_state_cov := H + Q, diffuse := False,
                nobs_diffuse := nobs_diffuse s + 1\<rparr>)
      else
        let v = y - predicted_state s; F = predicted_state_cov s + H in
        if F \<le> 0 then None
        else
          let K = predicted_state_cov s / F in
          Some (s\<lparr>predicted_state := predicted_state s + K * v,
                  predicted_state_cov := predicted_state_cov s * (1 - K) + Q,
                  nobs_effective := nobs_effective s + 1,
                  scale_sum := scale_sum s + v\<^sup>2 / F,
                  logdet_sum := logdet_sum s + ln F\<rparr>))"

text \<open>
  Modelled from the spec: the filtering pass over the sample (library code, not in the
  notebook).
\<close>

fun filter_pass :: "real \<Rightarrow> real \<Rightarrow> filter_state \<Rightarrow> ndarray \<Rightarrow> filter_state option" where
  "filter_pass Q H s [] = Some s"
| "filter_pass Q H s (y # ys) =
     (case filter_step Q H s y of None \<Rightarrow> None | Some s' \<Rightarrow> filter_pass Q H s' ys)"

text \<open>
  Modelled from the spec: the Gaussian log-likelihood of the sample when every
  variance is a parameter of the model (library code, not in the notebook): each
  observation gives \<open>- (ln (2 \<pi>) + ln F + v\<^sup>2 / F) / 2\<close>, the diffuse one
  \<open>- ln (2 \<pi>) / 2\<close>.
\<close>

definition llf_of :: "filter_state \<Rightarrow> real" where
  "llf_of s = - (1 / 2) * (real (nobs_diffuse s + nobs_effective s) * ln (2 * pi)
       + logdet_sum s + scale_sum s)"

text \<open>
  Modelled from the spec: the likelihood of a sample, from a whole pass (library code,
  not in the notebook).
\<close>

definition loglike :: "real \<Rightarrow> real \<Rightarrow> ndarray \<Rightarrow> real option" where
  "loglike Q H endog = map_option llf_of (filter_pass Q H filter_init endog)"

text \<open>
  Modelled from the spec: the end of a pass under \<open>filter_concentrated\<close> (library
  code, not in the notebook). The estimate of the scale is the accumulated sum divided
  by the number of observations that count; the likelihood is completed with the
  covariance terms multiplied by that scale, which puts \<open>ln scale\<close> and 1 in the
  place of each \<open>v\<^sup>2 / F\<close>. The result is the scale and the log-likelihood; there is
  none when no observation counts or the sum is not positive (the spec leaves
  concentration undefined there).
\<close>

definition concentrated_of :: "filter_state \<Rightarrow> (real \<times> real) option" where
  "concentrated_of s =
     (if nobs_effective s = 0 \<or> scale_sum s \<le> 0 then None
      else
        let scale = scale_sum s / real (nobs_effective s) in
        Some (scale,
          - (1 / 2) * (real (nobs_diffuse s + nobs_effective s) * ln (2 * pi) + logdet_sum s
             + real (nobs_effective s) * ln scale + real (nobs_effective s))))"

text \<open>
  Modelled from the spec: the concentrated evaluation of a sample, from a whole pass
  (library code, not in the notebook).
\<close>

definition loglike_concentrated :: "real \<Rightarrow> real \<Rightarrow> ndarray \<Rightarrow> (real \<times> real) option" where
  "loglike_concentrated Q H endog =
     (case filter_pass Q H filter_init endog of None \<Rightarrow> None | Some s \<Rightarrow> concentrated_of s)"

text \<open>The entry of a 1 x 1 matrix, when it is a number.\<close>

definition the_scalar :: "matrix \<Rightarrow> real option" where
  "the_scalar A = (case A of [[Num x]] \<Rightarrow> Some x | _ \<Rightarrow> None)"

text \<open>
  Modelled from the spec: the form of the model the pass above is written for. The
  library's filter is general; only this form, which both constructors of the notebook
  set up, is modelled.
\<close>

definition local_level_form :: "model \<Rightarrow> bool" where
  "local_level_form m =
     (design m = [[Num 1]] \<and> obs_intercept m = [[Num 0]] \<and> transition m = [[Num 1]] \<and>
      state_intercept m = [[Num 0]] \<and> selection m = [[Num 1]])"

text \<open>
  Modelled from the spec: the likelihood evaluation of a model object (library code,
  not in the notebook): it reads the matrices the object holds and runs the pass,
  concentrated when the flag is set. The result is the scale (1 when it is not
  concentrated out) and the log-likelihood.
\<close>

definition MLEModel_loglike :: "model \<Rightarrow> ndarray \<Rightarrow> (real \<times> real) option" where
  "MLEModel_loglike m endog =
     (if local_level_form m then
        case the_scalar (state_cov m) of
          None \<Rightarrow> None
        | Some Q \<Rightarrow>
            (case the_scalar (obs_cov m) of
               None \<Rightarrow> None
             | Some H \<Rightarrow>
                 if filter_concentrated m then loglike_concentrated Q H endog
                 else map_option (Pair 1) (loglike Q H endog))
      else None)"

text \<open>
  Modelled from the spec: what \<open>fit\<close> maximizes (library code, not in the notebook):
  \<open>LocalLevel(endog)\<close>, respectively \<open>LocalLevelConcentrated(endog)\<close>, is
  built on one observed series, \<open>update\<close> is called with the constrained parameters,
  and the likelihood of the object is evaluated. The constructors and \<open>update\<close> are
  the notebook's own.
\<close>

definition LocalLevel_loglike :: "ndarray \<Rightarrow> ndarray \<Rightarrow> (real \<times> real) option" where
  "LocalLevel_loglike endog params =
     (case LocalLevel_init (MLEModel_init 1 1) of
        (Some e, m) \<Rightarrow> None
      | (None, m) \<Rightarrow>
          (case LocalLevel_update (MLEModel_update LocalLevel_transform_params True) m params of
             (Some e, m') \<Rightarrow> None
           | (None, m') \<Rightarrow> MLEModel_loglike m' endog))"

text \<open>
  Modelled from the spec: the same for \<open>LocalLevelConcentrated\<close> (library code,
  not in the notebook).
\<close>

definition LocalLevelConcentrated_loglike :: "ndarray \<Rightarrow> ndarray \<Rightarrow> (real \<times> real) option" where
  "LocalLevelConcentrated_loglike endog params =
     (case LocalLevelConcentrated_init (MLEModel_init 1 1) of
        (Some e, m) \<Rightarrow> None
      | (None, m) \<Rightarrow>
          (case LocalLevelConcentrated_update
                  (MLEModel_update LocalLevelConcentrated_transform_params True) m params of
             (Some e, m') \<Rightarrow> None
           | (None, m') \<Rightarrow> MLEModel_loglike m' endog))"

text \<open>
  Modelled from the spec: the other normalization, which the notebook describes and
  does not implement (its first way, \<open>\<sigma>\<^sub>*\<^sup>2 \<equiv> \<sigma>\<^sub>\<epsilon>\<^sup>2\<close>): the observation noise
  variance is fixed to 1 and the one parameter is \<open>q\<^sub>\<eta> = \<sigma>\<^sub>\<eta>\<^sup>2 / \<sigma>\<^sub>\<epsilon>\<^sup>2\<close>, the state
  noise variance.
\<close>

definition loglike_obs_normalized :: "ndarray \<Rightarrow> real \<Rightarrow> (real \<times> real) option" where
  "loglike_obs_normalized endog q = loglike_concentrated q 1 endog"

section \<open>The library's fit\<close>

text \<open>
  Modelled from the spec: the results object of \<open>fit\<close> (library code, not in the
  notebook), "exposing fitted parameters, the estimated scale, the log-likelihood, and
  optimizer return values (including iteration count)".
\<close>

record results =
  res_params :: ndarray
  res_scale :: real
  res_llf :: real
  res_iterations :: nat

text \<open>
  Modelled from the spec: the numerical search of the library (not in the notebook), of
  which nothing is known but its interface: given the log-likelihood as a function of
  the parameters and the start parameters of the class, it hands back the parameters
  it found and its iteration count.
\<close>

type_synonym optimizer = "(ndarray \<Rightarrow> real option) \<Rightarrow> ndarray \<Rightarrow> ndarray \<times> nat"

text \<open>
  Modelled from the spec: \<open>fit\<close> (library code, not in the notebook): the search is
  run on the likelihood of the model, and the result holds the parameters found
  together with the scale and the log-likelihood of the model at these parameters.
\<close>

definition MLEModel_fit ::
  "(ndarray \<Rightarrow> (real \<times> real) option) \<Rightarrow> ndarray \<Rightarrow> optimizer \<Rightarrow> results option" where
  "MLEModel_fit loglike_at start_params search =
     (case search (\<lambda>params. map_option snd (loglike_at params)) start_params of
        (found, iterations) \<Rightarrow>
          (case loglike_at found of
             None \<Rightarrow> None
           | Some (scale_found, llf_found) \<Rightarrow>
               Some \<lparr> res_params = found, res_scale = scale_found, res_llf = llf_found,
                      res_iterations = iterations \<rparr>))"

text \<open>Modelled from the spec: \<open>LocalLevel(endog).fit()\<close> (library code, not in the notebook).\<close>

definition LocalLevel_fit :: "ndarray \<Rightarrow> optimizer \<Rightarrow> results option" where
  "LocalLevel_fit endog search =
     MLEModel_fit (LocalLevel_loglike endog) LocalLevel_start_params search"

text \<open>
  Modelled from the spec: \<open>LocalLevelConcentrated(endog).fit()\<close> (library code, not in
  the notebook).
\<close>

definition LocalLevelConcentrated_fit :: "ndarray \<Rightarrow> optimizer \<Rightarrow> results option" where
  "LocalLevelConcentrated_fit endog search =
     MLEModel_fit (LocalLevelConcentrated_loglike endog) LocalLevelConcentrated_start_params search"

section \<open>Specification of the pass\<close>

text \<open>
  The prediction errors of a pass and their variances, one pair \<open>(v, F)\<close> for each
  observation that counts, in the order of the sample: a missing or a diffuse
  observation has none.
\<close>

definition forecast_error :: "real \<Rightarrow> filter_state \<Rightarrow> float64 \<Rightarrow> (real \<times> real) list" where
  "forecast_error H s y =
     (case y of
        Num r \<Rightarrow>
          if diffuse s then []
          else [(r - predicted_state s, predicted_state_cov s + H)]
      | NaN \<Rightarrow> [])"

fun forecast_errors :: "real \<Rightarrow> real \<Rightarrow> filter_state \<Rightarrow> ndarray \<Rightarrow> (real \<times> real) list" where
  "forecast_errors Q H s [] = []"
| "forecast_errors Q H s (y # ys) =
     (case filter_step Q H s y of
        None \<Rightarrow> []
      | Some s' \<Rightarrow> forecast_error H s y @ forecast_errors Q H s' ys)"

text \<open>
  The state a pass reaches when every variance of the model is multiplied by \<open>c\<close>,
  in terms of the state it reaches without.
\<close>

definition scale_state :: "real \<Rightarrow> filter_state \<Rightarrow> filter_state" where
  "scale_state c s =
     s\<lparr>predicted_state_cov := c * predicted_state_cov s,
       scale_sum := scale_sum s / c,
       logdet_sum := logdet_sum s + real (nobs_effective s) * ln c\<rparr>"

text \<open>The prediction variance is positive once the diffuse period is over.\<close>

definition filter_inv :: "filter_state \<Rightarrow> bool" where
  "filter_inv s = (0 \<le> predicted_state_cov s \<and> (diffuse s \<or> 0 < predicted_state_cov s))"

section \<open>Rounding to float64\<close>

lemma rne_cases:
  "round_nearest_even t = \<lfloor>t\<rfloor> \<or> round_nearest_even t = \<lfloor>t\<rfloor> + 1"
  by (simp add: round_nearest_even_def Let_def)

lemma rne_error: "\<bar>of_int (round_nearest_even t) - t\<bar> \<le> 1 / 2"
proof -
  have "of_int \<lfloor>t\<rfloor> \<le> t" "t < of_int \<lfloor>t\<rfloor> + 1" by linarith+
  then show ?thesis
    by (auto simp: round_nearest_even_def Let_def abs_le_iff)
qed

lemma rne_unique:
  assumes "\<bar>t - of_int k\<bar> < 1 / 2"
  shows "round_nearest_even t = k"
proof -
  have "\<bar>of_int (round_nearest_even t) - t\<bar> \<le> 1 / 2" by (rule rne_error)
  with assms have "\<bar>(of_int (round_nearest_even t) :: real) - of_int k\<bar> < 1" by linarith
  then have "\<bar>of_int (round_nearest_even t - k) :: real\<bar> < 1" by simp
  then have "\<bar>round_nearest_even t - k\<bar> < 1" by linarith
  then show ?thesis by linarith
qed

lemma rne_of_int: "round_nearest_even (of_int k) = k"
  by (rule rne_unique) simp

lemma rne_ge_floor: "\<lfloor>t\<rfloor> \<le> round_nearest_even t"
  using rne_cases [of t] by linarith

lemma rne_nonneg: "0 \<le> t \<Longrightarrow> 0 \<le> round_nearest_even t"
  using rne_ge_floor [of t] by (meson order_trans zero_le_floor)

lemma powr2_int: "2 powr (real_of_int k) = (2::real) powi k"
  by (simp add: powr_real_of_int')

lemma powr2_int1: "2 powr (real_of_int k + 1) = (2::real) powi (k + 1)"
  using powr2_int [of "k + 1"] by simp

lemma floor_log2_eq:
  assumes "0 < x" "2 powi k \<le> x" "x < 2 powi (k + 1)"
  shows "\<lfloor>log 2 x\<rfloor> = k"
  using assms by (simp add: floor_log_eq_powr_iff powr2_int powr2_int1)

lemma floor_log2_bounds:
  assumes "0 < x"
  shows "2 powi \<lfloor>log 2 x\<rfloor> \<le> x" "x < 2 powi (\<lfloor>log 2 x\<rfloor> + 1)"
  using floor_log_eq_powr_iff [of x 2 "\<lfloor>log 2 x\<rfloor>"] assms
  by (simp_all add: powr2_int powr2_int1)


lemma powi2_pos: "0 < (2::real) powi k"
  by simp

lemma powi2_diff52: "(2::real) powi (e - 52) = 2 powi e / 2 ^ 52"
  by (simp add: power_int_diff)

lemma exponent_normal:
  assumes "2 powi (- 1022) \<le> \<bar>x\<bar>"
  shows "exponent_binary64 x = \<lfloor>log 2 \<bar>x\<bar>\<rfloor>" and "- 1022 \<le> exponent_binary64 x"
    and "2 powi exponent_binary64 x \<le> \<bar>x\<bar>" and "\<bar>x\<bar> < 2 powi (exponent_binary64 x + 1)"
proof -
  have pos: "0 < \<bar>x\<bar>" using assms powi2_pos [of "- 1022"] by linarith
  have "\<not> \<bar>x\<bar> < 2 powi (\<lfloor>log 2 \<bar>x\<bar>\<rfloor> + 1) \<or> - 1022 \<le> \<lfloor>log 2 \<bar>x\<bar>\<rfloor>"
  proof (cases "- 1022 \<le> \<lfloor>log 2 \<bar>x\<bar>\<rfloor>")
    case True
    then show ?thesis by simp
  next
    case False
    then have "\<lfloor>log 2 \<bar>x\<bar>\<rfloor> + 1 \<le> - 1022" by linarith
    then have "(2::real) powi (\<lfloor>log 2 \<bar>x\<bar>\<rfloor> + 1) \<le> 2 powi (- 1022)"
      by (intro power_int_increasing) simp_all
    with assms show ?thesis by linarith
  qed
  with floor_log2_bounds(2) [OF pos] have ge: "- 1022 \<le> \<lfloor>log 2 \<bar>x\<bar>\<rfloor>" by blast
  then show e: "exponent_binary64 x = \<lfloor>log 2 \<bar>x\<bar>\<rfloor>" by (simp add: exponent_binary64_def)
  show "- 1022 \<le> exponent_binary64 x" using e ge by simp
  show "2 powi exponent_binary64 x \<le> \<bar>x\<bar>" using e floor_log2_bounds(1) [OF pos] by simp
  show "\<bar>x\<bar> < 2 powi (exponent_binary64 x + 1)" using e floor_log2_bounds(2) [OF pos] by simp
qed

lemma exponent_subnormal:
  assumes "x \<noteq> 0" "\<bar>x\<bar> < 2 powi (- 1022)"
  shows "exponent_binary64 x = - 1022"
proof -
  have pos: "0 < \<bar>x\<bar>" using assms by simp
  have "\<lfloor>log 2 \<bar>x\<bar>\<rfloor> < - 1022"
  proof (rule ccontr)
    assume "\<not> \<lfloor>log 2 \<bar>x\<bar>\<rfloor> < - 1022"
    then have "(2::real) powi (- 1022) \<le> 2 powi \<lfloor>log 2 \<bar>x\<bar>\<rfloor>"
      by (intro power_int_increasing) simp_all
    with floor_log2_bounds(1) [OF pos] assms(2) show False by linarith
  qed
  then show ?thesis by (simp add: exponent_binary64_def)
qed

lemma magnitude_error:
  "\<bar>magnitude_binary64 x - \<bar>x\<bar>\<bar> \<le> 2 powi (exponent_binary64 x - 52) / 2"
proof -
  define q :: real where "q = 2 powi (exponent_binary64 x - 52)"
  have q: "0 < q" by (simp add: q_def)
  have "\<bar>of_int (round_nearest_even (\<bar>x\<bar> / q)) - \<bar>x\<bar> / q\<bar> \<le> 1 / 2" by (rule rne_error)
  then have "\<bar>of_int (round_nearest_even (\<bar>x\<bar> / q)) - \<bar>x\<bar> / q\<bar> * q \<le> 1 / 2 * q"
    using q by (intro mult_right_mono) simp_all
  moreover have "\<bar>of_int (round_nearest_even (\<bar>x\<bar> / q)) - \<bar>x\<bar> / q\<bar> * q
      = \<bar>of_int (round_nearest_even (\<bar>x\<bar> / q)) * q - \<bar>x\<bar>\<bar>"
  proof -
    have "\<bar>of_int (round_nearest_even (\<bar>x\<bar> / q)) - \<bar>x\<bar> / q\<bar> * q
        = \<bar>(of_int (round_nearest_even (\<bar>x\<bar> / q)) - \<bar>x\<bar> / q) * q\<bar>"
      using q by (simp add: abs_mult)
    also have "(of_int (round_nearest_even (\<bar>x\<bar> / q)) - \<bar>x\<bar> / q) * q
        = of_int (round_nearest_even (\<bar>x\<bar> / q)) * q - \<bar>x\<bar>"
      using q by (simp add: left_diff_distrib)
    finally show ?thesis .
  qed
  ultimately show ?thesis
    by (simp add: magnitude_binary64_def Let_def q_def [symmetric])
qed

lemma magnitude_nonneg: "0 \<le> magnitude_binary64 x"
proof -
  have "0 \<le> round_nearest_even (\<bar>x\<bar> / 2 powi (exponent_binary64 x - 52))"
    by (rule rne_nonneg) simp
  then show ?thesis by (simp add: magnitude_binary64_def Let_def)
qed

lemma magnitude_error_normal:
  assumes "2 powi (- 1022) \<le> \<bar>x\<bar>"
  shows "\<bar>magnitude_binary64 x - \<bar>x\<bar>\<bar> \<le> \<bar>x\<bar> / 2 ^ 53"
proof -
  have "(2::real) powi (exponent_binary64 x - 52) / 2 = 2 powi exponent_binary64 x / 2 ^ 53"
    by (simp add: powi2_diff52)
  also have "\<dots> \<le> \<bar>x\<bar> / 2 ^ 53"
    using exponent_normal(3) [OF assms] by (simp add: divide_right_mono)
  finally show ?thesis using magnitude_error [of x] by linarith
qed

lemma magnitude_error_mixed:
  "\<bar>magnitude_binary64 x - \<bar>x\<bar>\<bar> \<le> \<bar>x\<bar> / 2 ^ 53 + 1 / 2 ^ 1075"
proof (cases "2 powi (- 1022) \<le> \<bar>x\<bar>")
  case True
  have "(0::real) \<le> 1 / 2 ^ 1075" by simp
  with magnitude_error_normal [OF True] show ?thesis by linarith
next
  case False
  show ?thesis
  proof (cases "x = 0")
    case True
    then show ?thesis by (simp add: magnitude_binary64_def rne_of_int [of 0, simplified])
  next
    case nz: False
    with False have e: "exponent_binary64 x = - 1022" by (simp add: exponent_subnormal)
    have "(2::real) powi (- 1022 - 52) / 2 = 1 / 2 ^ 1075"
      by (simp add: power_int_minus field_simps)
    with magnitude_error [of x] e have "\<bar>magnitude_binary64 x - \<bar>x\<bar>\<bar> \<le> 1 / 2 ^ 1075" by simp
    moreover have "0 \<le> \<bar>x\<bar> / 2 ^ 53" by simp
    ultimately show ?thesis by linarith
  qed
qed

lemma magnitude_ge_normal:
  assumes "2 powi (- 1022) \<le> \<bar>x\<bar>"
  shows "2 powi exponent_binary64 x \<le> magnitude_binary64 x"
proof -
  define q :: real where "q = 2 powi (exponent_binary64 x - 52)"
  have q: "0 < q" by (simp add: q_def)
  have qe: "2 powi exponent_binary64 x = 2 ^ 52 * q" by (simp add: q_def powi2_diff52)
  have "2 ^ 52 * q \<le> \<bar>x\<bar>" using exponent_normal(3) [OF assms] qe by simp
  then have "2 ^ 52 \<le> \<bar>x\<bar> / q" using q by (simp add: pos_le_divide_eq)
  then have "(2 ^ 52 :: int) \<le> \<lfloor>\<bar>x\<bar> / q\<rfloor>" by (simp add: le_floor_iff)
  with rne_ge_floor [of "\<bar>x\<bar> / q"] have "(2 ^ 52 :: int) \<le> round_nearest_even (\<bar>x\<bar> / q)"
    by linarith
  then have "(2 ^ 52 :: real) \<le> of_int (round_nearest_even (\<bar>x\<bar> / q))"
    by simp
  then have "2 ^ 52 * q \<le> of_int (round_nearest_even (\<bar>x\<bar> / q)) * q"
    using q by (intro mult_right_mono) simp_all
  then show ?thesis by (simp add: magnitude_binary64_def Let_def q_def [symmetric] qe)
qed

lemma round_binary64_finite:
  assumes "magnitude_binary64 x < 2 ^ 1024"
  shows "round_binary64 x = Finite (if 0 < x then magnitude_binary64 x else - magnitude_binary64 x)"
  using assms by (simp add: round_binary64_def magnitude_binary64_def rne_of_int [of 0, simplified])


lemma magnitude_eval_normal:
  assumes "2 powi e \<le> \<bar>x\<bar>" "\<bar>x\<bar> < 2 powi (e + 1)" "- 1022 \<le> e"
    and "\<bar>\<bar>x\<bar> / 2 powi (e - 52) - of_int k\<bar> < 1 / 2"
  shows "magnitude_binary64 x = of_int k * 2 powi (e - 52)"
proof -
  have pos: "0 < \<bar>x\<bar>" using assms(1) powi2_pos [of e] by linarith
  have "\<lfloor>log 2 \<bar>x\<bar>\<rfloor> = e" using pos assms(1,2) by (rule floor_log2_eq)
  then have "exponent_binary64 x = e" using assms(3) by (simp add: exponent_binary64_def)
  then show ?thesis
    using rne_unique [OF assms(4)] by (simp add: magnitude_binary64_def Let_def)
qed

lemma magnitude_eval_subnormal:
  assumes "x \<noteq> 0" "\<bar>x\<bar> < 2 powi (- 1022)"
    and "\<bar>\<bar>x\<bar> / 2 powi (- 1074) - of_int k\<bar> < 1 / 2"
  shows "magnitude_binary64 x = of_int k * 2 powi (- 1074)"
  using rne_unique [OF assms(3)] exponent_subnormal [OF assms(1,2)]
  by (simp add: magnitude_binary64_def Let_def)

lemma sqrt2_bounds: "1 \<le> sqrt 2" "sqrt 2 < 2"
  by (simp_all add: real_less_lsqrt)

lemma round_sqrt2: "round_binary64 (sqrt 2) = Finite (6369051672525773 / 2 ^ 52)"
proof -
  have lo: "12738103345051545 / 2 ^ 53 < sqrt 2"
    by (rule real_less_rsqrt) (simp add: power2_eq_square)
  have hi: "sqrt 2 < 12738103345051547 / 2 ^ 53"
    by (rule real_less_lsqrt) (simp_all add: power2_eq_square)
  have q: "(2::real) powi (0 - 52) = 1 / 2 ^ 52" by (simp add: power_int_minus field_simps)
  have "sqrt 2 * 2 ^ 52 - 6369051672525773 < 1 / 2" "6369051672525773 - sqrt 2 * 2 ^ 52 < 1 / 2"
    using lo hi by (simp_all add: field_simps)
  then have "\<bar>sqrt 2 * 2 ^ 52 - 6369051672525773\<bar> < 1 / 2" by linarith
  then have t: "\<bar>\<bar>sqrt 2\<bar> / 2 powi (0 - 52) - of_int 6369051672525773\<bar> < 1 / 2"
    unfolding q by simp
  have "magnitude_binary64 (sqrt 2) = of_int 6369051672525773 * 2 powi (0 - 52)"
    using sqrt2_bounds by (intro magnitude_eval_normal t) simp_all
  then have m: "magnitude_binary64 (sqrt 2) = 6369051672525773 / 2 ^ 52"
    unfolding q by simp
  have "(6369051672525773 / 2 ^ 52 :: real) < 2 ^ 1024" by simp
  with m show ?thesis by (simp add: round_binary64_def)
qed


lemma round_eval_normal:
  assumes "0 < x" "2 powi e \<le> x" "x < 2 powi (e + 1)" "- 1022 \<le> e"
    and "\<bar>x / 2 powi (e - 52) - of_int k\<bar> < 1 / 2"
    and "of_int k * 2 powi (e - 52) < (2 ^ 1024 :: real)"
  shows "round_binary64 x = Finite (of_int k * 2 powi (e - 52))"
proof -
  have "magnitude_binary64 x = of_int k * 2 powi (e - 52)"
    using assms by (intro magnitude_eval_normal) simp_all
  with assms(1,6) show ?thesis by (simp add: round_binary64_def)
qed

lemma pow_half_2: "pow_half_binary64 (Finite 2) = Finite (6369051672525773 / 2 ^ 52)"
  by (simp add: round_sqrt2)

lemma pow2_sqrt2:
  "pow2_binary64 (Finite (6369051672525773 / 2 ^ 52)) = Finite (4503599627370497 / 2 ^ 51)"
proof -
  define x :: real where "x = 6369051672525773 / 2 ^ 52 * (6369051672525773 / 2 ^ 52)"
  have q: "(2::real) powi (1 - 52) = 1 / 2 ^ 51" by (simp add: power_int_minus field_simps)
  have "round_binary64 x = Finite (of_int 4503599627370497 * 2 powi (1 - 52))"
  proof (rule round_eval_normal)
    show "0 < x" "2 powi 1 \<le> x" "x < 2 powi (1 + 1)" by (simp_all add: x_def)
    show "\<bar>x / 2 powi (1 - 52) - of_int 4503599627370497\<bar> < 1 / 2"
      unfolding q by (simp add: x_def abs_less_iff)
    show "of_int 4503599627370497 * 2 powi (1 - 52) < (2 ^ 1024 :: real)"
      unfolding q by simp
  qed simp
  then show ?thesis unfolding q by (simp add: x_def)
qed

lemma pow2_tiny: "pow2_binary64 (Finite (1 / 2 ^ 600)) = Finite 0"
proof -
  define x :: real where "x = 1 / 2 ^ 600 * (1 / 2 ^ 600)"
  have x: "x = 1 / 2 ^ 1200" by (simp add: x_def)
  have q: "(2::real) powi (- 1074) = 1 / 2 ^ 1074" "(2::real) powi (- 1022) = 1 / 2 ^ 1022"
    by (simp_all add: power_int_minus field_simps)
  have "magnitude_binary64 x = of_int 0 * 2 powi (- 1074)"
  proof (rule magnitude_eval_subnormal)
    show "x \<noteq> 0" by (simp add: x)
    show "\<bar>x\<bar> < 2 powi (- 1022)" unfolding q by (simp add: x)
    show "\<bar>\<bar>x\<bar> / 2 powi (- 1074) - of_int 0\<bar> < 1 / 2" unfolding q by (simp add: x)
  qed
  then have "magnitude_binary64 x = 0" by simp
  then have "round_binary64 x = Finite 0" by (simp add: round_binary64_def)
  then show ?thesis by (simp add: x_def)
qed

lemma pow_half_0: "pow_half_binary64 (Finite 0) = Finite 0"
  by (simp add: round_binary64_def)

lemma is_binary64_2: "is_binary64 2"
proof -
  have q: "(2::real) powi (1 - 52) = 1 / 2 ^ 51" by (simp add: power_int_minus field_simps)
  have "round_binary64 2 = Finite (of_int 4503599627370496 * 2 powi (1 - 52))"
    by (rule round_eval_normal) (simp_all add: q)
  then show ?thesis by (simp add: is_binary64_def q)
qed

lemma is_binary64_tiny: "is_binary64 (1 / 2 ^ 600)"
proof -
  have q: "(2::real) powi (- 600 - 52) = 1 / 2 ^ 652" "(2::real) powi (- 600) = 1 / 2 ^ 600"
    "(2::real) powi (- 600 + 1) = 1 / 2 ^ 599"
    by (simp_all add: power_int_minus field_simps)
  have "round_binary64 (1 / 2 ^ 600) = Finite (of_int 4503599627370496 * 2 powi (- 600 - 52))"
    by (rule round_eval_normal) (simp_all add: q)
  then show ?thesis by (simp add: is_binary64_def q)
qed


lemma powi2_numeral_facts:
  "(2::real) powi (- 1022) = 1 / 2 ^ 1022" "(2::real) powi 512 = 2 ^ 512"
  "(2::real) powi 511 = 2 ^ 511" "(2::real) powi (511 - 52) = 2 ^ 459"
  by (simp_all add: power_int_minus field_simps)

lemma exponent_less:
  assumes "2 powi (- 1022) \<le> \<bar>x\<bar>" "\<bar>x\<bar> < 2 powi n"
  shows "exponent_binary64 x < n"
proof (rule ccontr)
  assume "\<not> exponent_binary64 x < n"
  then have "(2::real) powi n \<le> 2 powi exponent_binary64 x"
    by (intro power_int_increasing) simp_all
  with exponent_normal(3) [OF assms(1)] assms(2) show False by linarith
qed

lemma exponent_ge:
  assumes "2 powi (- 1022) \<le> \<bar>x\<bar>" "2 powi n \<le> \<bar>x\<bar>"
  shows "n \<le> exponent_binary64 x"
proof (rule ccontr)
  assume "\<not> n \<le> exponent_binary64 x"
  then have "exponent_binary64 x + 1 \<le> n" by simp
  then have "(2::real) powi (exponent_binary64 x + 1) \<le> 2 powi n"
    by (intro power_int_increasing) simp_all
  with exponent_normal(4) [OF assms(1)] assms(2) show False by linarith
qed

text \<open>The square root of a finite positive value rounds to at most the largest value below 2 ^ 512.\<close>

lemma magnitude_sqrt_le:
  assumes "1 / 2 ^ 1074 \<le> x" "x \<le> 2 ^ 1024 - 2 ^ 971"
  shows "magnitude_binary64 (sqrt x) \<le> 2 ^ 512 - 2 ^ 459"
proof -
  define r where "r = sqrt x"
  have "(0::real) < 1 / 2 ^ 1074" by simp
  with assms(1) have x: "0 < x" by linarith
  have r: "0 < r" using x by (simp add: r_def)
  have "(1 / 2 ^ 537 :: real) \<le> r"
    unfolding r_def by (rule real_le_rsqrt) (use assms(1) in \<open>simp add: power2_eq_square\<close>)
  then have n: "2 powi (- 1022) \<le> \<bar>r\<bar>"
    using r by (simp add: powi2_numeral_facts)
  have top: "r < 2 ^ 512 - 2 ^ 458"
    unfolding r_def by (rule real_less_lsqrt) (use assms(2) x in \<open>simp_all add: power2_eq_square\<close>)
  then have "\<bar>r\<bar> < 2 powi 512" using r by (simp add: powi2_numeral_facts)
  from exponent_less [OF n this] have e: "exponent_binary64 r \<le> 511" by simp
  show ?thesis unfolding r_def [symmetric]
  proof (cases "exponent_binary64 r = 511")
    case True
    have "\<bar>of_int (round_nearest_even (\<bar>r\<bar> / 2 ^ 459)) - \<bar>r\<bar> / 2 ^ 459\<bar> \<le> 1 / 2"
      by (rule rne_error)
    moreover have "\<bar>r\<bar> / 2 ^ 459 < 2 ^ 53 - 1 / 2" using top r by (simp add: field_simps)
    ultimately have "(of_int (round_nearest_even (\<bar>r\<bar> / 2 ^ 459)) :: real) < 2 ^ 53" by linarith
    then have "round_nearest_even (\<bar>r\<bar> / 2 ^ 459) < 2 ^ 53" by simp
    then have "round_nearest_even (\<bar>r\<bar> / 2 ^ 459) \<le> 2 ^ 53 - 1" by simp
    then have "(of_int (round_nearest_even (\<bar>r\<bar> / 2 ^ 459)) :: real) \<le> of_int (2 ^ 53 - 1)"
      by (simp only: of_int_le_iff)
    then have "(of_int (round_nearest_even (\<bar>r\<bar> / 2 ^ 459)) :: real) \<le> 2 ^ 53 - 1"
      by simp
    then have "of_int (round_nearest_even (\<bar>r\<bar> / 2 ^ 459)) * (2 ^ 459 :: real)
        \<le> (2 ^ 53 - 1) * 2 ^ 459"
      by (intro mult_right_mono) simp_all
    then show "magnitude_binary64 r \<le> 2 ^ 512 - 2 ^ 459"
      by (simp add: magnitude_binary64_def Let_def True powi2_numeral_facts)
  next
    case False
    with e have "exponent_binary64 r + 1 \<le> 511" by simp
    then have "(2::real) powi (exponent_binary64 r + 1) \<le> 2 powi 511"
      by (intro power_int_increasing) simp_all
    with exponent_normal(4) [OF n] have "\<bar>r\<bar> < 2 ^ 511" by (simp add: powi2_numeral_facts)
    then have "\<bar>r\<bar> / 2 ^ 53 \<le> 2 ^ 511 / 2 ^ 53" by (simp add: divide_right_mono)
    with magnitude_error_normal [OF n] \<open>\<bar>r\<bar> < 2 ^ 511\<close>
    have "magnitude_binary64 r \<le> 2 ^ 511 + 2 ^ 511 / 2 ^ 53"
      by linarith
    then show "magnitude_binary64 r \<le> 2 ^ 512 - 2 ^ 459" by simp
  qed
qed

section \<open>Parameter transforms\<close>

lemma roundtrip_constrained:
  assumes "x = 0 \<or> 1 / 2 ^ 1074 \<le> x" and "x \<le> 2 ^ 1024 - 2 ^ 971"
  shows "\<exists>y. pow2_binary64 (pow_half_binary64 (Finite x)) = Finite y \<and>
    \<bar>y - x\<bar> \<le> x / 2 ^ 51 + 1 / 2 ^ 1075"
proof (cases "x = 0")
  case True
  then show ?thesis by (simp add: round_binary64_def)
next
  case False
  with assms(1) have lo: "1 / 2 ^ 1074 \<le> x" by simp
  have "(0::real) < 1 / 2 ^ 1074" by simp
  with lo have x: "0 < x" by linarith
  define r where "r = sqrt x"
  have r: "0 < r" and rr: "r * r = x" using x by (simp_all add: r_def)
  have "(1 / 2 ^ 537 :: real) \<le> r"
    unfolding r_def by (rule real_le_rsqrt) (use lo in \<open>simp add: power2_eq_square\<close>)
  then have n: "2 powi (- 1022) \<le> \<bar>r\<bar>" using r by (simp add: powi2_numeral_facts)
  define s where "s = magnitude_binary64 r"
  have s_top: "s \<le> 2 ^ 512 - 2 ^ 459"
    unfolding s_def r_def by (rule magnitude_sqrt_le [OF lo assms(2)])
  have s_err: "\<bar>s - r\<bar> \<le> r / 2 ^ 53"
    using magnitude_error_normal [OF n] r by (simp add: s_def)
  have s_pos: "0 < s"
    unfolding s_def
    using magnitude_ge_normal [OF n] powi2_pos [of "exponent_binary64 r"] by linarith
  have half: "pow_half_binary64 (Finite x) = Finite s"
  proof -
    have "s < 2 ^ 1024" using s_top by simp
    then show ?thesis
      using x r round_binary64_finite [of r] by (simp add: s_def r_def)
  qed
  define a :: real where "a = 1 + 1 / 2 ^ 53"
  define b :: real where "b = 1 - 1 / 2 ^ 53"
  have ab: "0 < b" "0 < a" by (simp_all add: a_def b_def)
  have ta: "t * a = t + t / 2 ^ 53" and tb: "t * b = t - t / 2 ^ 53" for t
    by (simp_all add: a_def b_def algebra_simps)
  have s_hi: "s \<le> r * a" and s_lo: "r * b \<le> s"
    unfolding ta tb using s_err by linarith+
  have sq_hi: "s * s \<le> x * (a * a)"
  proof -
    have "s * s \<le> (r * a) * (r * a)" using s_hi s_pos by (intro mult_mono) simp_all
    also have "\<dots> = r * r * (a * a)" by (simp add: algebra_simps)
    finally show ?thesis by (simp add: rr)
  qed
  have sq_lo: "x * (b * b) \<le> s * s"
  proof -
    have "(r * b) * (r * b) \<le> s * s" using s_lo r ab s_pos by (intro mult_mono) simp_all
    moreover have "(r * b) * (r * b) = r * r * (b * b)" by (simp add: algebra_simps)
    ultimately show ?thesis by (simp add: rr)
  qed
  define y where "y = magnitude_binary64 (s * s)"
  have y_err: "\<bar>y - s * s\<bar> \<le> s * s / 2 ^ 53 + 1 / 2 ^ 1075"
    using magnitude_error_mixed [of "s * s"] by (simp add: y_def)
  have y_hi: "y \<le> s * s * a + 1 / 2 ^ 1075" and y_lo: "s * s * b - 1 / 2 ^ 1075 \<le> y"
    unfolding ta tb using y_err by linarith+
  have ss_top: "s * s \<le> (2 ^ 512 - 2 ^ 459) * (2 ^ 512 - 2 ^ 459)"
    using s_top s_pos by (intro mult_mono) simp_all
  have y_fin: "y < 2 ^ 1024"
  proof -
    have "s * s * a \<le> (2 ^ 512 - 2 ^ 459) * (2 ^ 512 - 2 ^ 459) * a"
      using ss_top ab by (intro mult_right_mono) simp_all
    moreover have "(2 ^ 512 - 2 ^ 459) * (2 ^ 512 - 2 ^ 459) * a + 1 / 2 ^ 1075 < (2 ^ 1024 :: real)"
      by (simp add: a_def)
    ultimately show ?thesis using y_hi by linarith
  qed
  have sq: "pow2_binary64 (Finite s) = Finite y"
    using round_binary64_finite [of "s * s"] y_fin s_pos by (simp add: y_def)
  have up: "y \<le> x * (a * a * a) + 1 / 2 ^ 1075"
  proof -
    have "s * s * a \<le> x * (a * a) * a" using sq_hi ab by (intro mult_right_mono) simp_all
    with y_hi show ?thesis by (simp add: mult.assoc)
  qed
  have dn: "x * (b * b * b) - 1 / 2 ^ 1075 \<le> y"
  proof -
    have "x * (b * b) * b \<le> s * s * b" using sq_lo ab by (intro mult_right_mono) simp_all
    with y_lo show ?thesis by (simp add: mult.assoc)
  qed
  have ca: "a * a * a \<le> 1 + 1 / 2 ^ 51" and cb: "1 - 1 / 2 ^ 51 \<le> b * b * b"
    by (simp_all add: a_def b_def)
  have "x * (a * a * a) \<le> x * (1 + 1 / 2 ^ 51)" using ca x by (intro mult_left_mono) simp_all
  moreover have "x * (1 - 1 / 2 ^ 51) \<le> x * (b * b * b)"
    using cb x by (intro mult_left_mono) simp_all
  ultimately have "y - x \<le> x / 2 ^ 51 + 1 / 2 ^ 1075" "x - y \<le> x / 2 ^ 51 + 1 / 2 ^ 1075"
    using up dn by (simp_all add: algebra_simps)
  then have "\<bar>y - x\<bar> \<le> x / 2 ^ 51 + 1 / 2 ^ 1075" by linarith
  with half sq show ?thesis by simp
qed

lemma is_binary64_grid:
  assumes "is_binary64 u" "u \<noteq> 0"
  shows "\<bar>u\<bar> = of_int (round_nearest_even (\<bar>u\<bar> / 2 powi (exponent_binary64 u - 52)))
      * 2 powi (exponent_binary64 u - 52)"
proof -
  from assms have fin: "\<not> 2 ^ 1024 \<le> magnitude_binary64 u"
    and eq: "(if 0 < u then magnitude_binary64 u else - magnitude_binary64 u) = u"
    by (auto simp: is_binary64_def round_binary64_def split: if_splits)
  from eq assms(2) have "magnitude_binary64 u = \<bar>u\<bar>" by (auto split: if_splits)
  then show ?thesis by (simp add: magnitude_binary64_def Let_def)
qed

lemma roundtrip_unconstrained:
  assumes "is_binary64 u" "1 / 2 ^ 511 \<le> \<bar>u\<bar>" "\<bar>u\<bar> < 2 ^ 512"
  shows "pow_half_binary64 (pow2_binary64 (Finite u)) = Finite \<bar>u\<bar>"
proof -
  define a where "a = \<bar>u\<bar>"
  define e where "e = exponent_binary64 u"
  define P :: real where "P = 2 powi e"
  define q :: real where "q = 2 powi (e - 52)"
  define k where "k = round_nearest_even (a / q)"
  define eps :: real where "eps = 1 / 2 ^ 53"
  have "(0::real) < 1 / 2 ^ 511" by simp
  with assms(2) have a: "0 < a" unfolding a_def by linarith
  then have u0: "u \<noteq> 0" by (auto simp: a_def)
  have P: "0 < P" and q: "0 < q" by (simp_all add: P_def q_def)
  have qP: "q = P / 2 ^ 52" by (simp add: q_def P_def powi2_diff52)
  have c511: "(2::real) powi (- 511) = 1 / 2 ^ 511" "(2::real) powi 1024 = 2 ^ 1024"
    by (simp_all add: power_int_minus field_simps)
  have n: "2 powi (- 1022) \<le> \<bar>u\<bar>"
    using assms(2) by (simp add: powi2_numeral_facts)
  have e_lo: "- 511 \<le> e" unfolding e_def
    by (rule exponent_ge [OF n]) (use assms(2) in \<open>simp add: c511\<close>)
  have e_hi: "e < 512" unfolding e_def
    by (rule exponent_less [OF n]) (use assms(3) in \<open>simp add: powi2_numeral_facts\<close>)
  have Pa: "P \<le> a" and aP: "a < 2 * P"
    using exponent_normal(3,4) [OF n] by (simp_all add: P_def e_def a_def power_int_add)
  have grid: "a = of_int k * q"
    using is_binary64_grid [OF assms(1) u0] by (simp add: a_def k_def q_def e_def)
  have Pq: "P = 2 ^ 52 * q" by (simp add: qP)
  have "a < 2 ^ 53 * q" using aP unfolding Pq by simp
  then have "of_int k * q < 2 ^ 53 * q" unfolding grid .
  then have "(of_int k :: real) < 2 ^ 53" using q by simp
  then have "k < 2 ^ 53" by simp
  then have "k \<le> 2 ^ 53 - 1" by simp
  then have "(of_int k :: real) \<le> of_int (2 ^ 53 - 1)" by (simp only: of_int_le_iff)
  then have "(of_int k :: real) \<le> 2 ^ 53 - 1" by simp
  then have "of_int k * q \<le> (2 ^ 53 - 1) * q" using q by (intro mult_right_mono) simp_all
  then have "a \<le> 2 ^ 53 * q - q" unfolding grid by (simp add: algebra_simps)
  then have a_top: "a \<le> 2 * P - q" unfolding Pq by simp
  have uu: "u * u = a * a" by (simp add: a_def)
  have x_lo: "P * P \<le> a * a" using Pa P by (intro mult_mono) simp_all
  have PP: "P * P = 2 powi (2 * e)"
  proof -
    have t: "(2::real) powi (e + e) = 2 powi e * 2 powi e" by (rule power_int_add) simp
    have d: "2 * e = e + e" by simp
    show ?thesis unfolding P_def d t ..
  qed
  have n2: "2 powi (- 1022) \<le> \<bar>a * a\<bar>"
  proof -
    have "(2::real) powi (- 1022) \<le> 2 powi (2 * e)"
      using e_lo by (intro power_int_increasing) simp_all
    with x_lo PP show ?thesis by simp
  qed
  define y where "y = magnitude_binary64 (a * a)"
  have y_err: "\<bar>y - a * a\<bar> \<le> a * a * eps"
    using magnitude_error_normal [OF n2] by (simp add: y_def eps_def)
  have y_lo: "P * P \<le> y"
  proof -
    have "2 * e \<le> exponent_binary64 (a * a)"
      by (rule exponent_ge [OF n2]) (use x_lo PP in simp)
    then have "(2::real) powi (2 * e) \<le> 2 powi exponent_binary64 (a * a)"
      by (intro power_int_increasing) simp_all
    with magnitude_ge_normal [OF n2] PP show ?thesis by (simp add: y_def)
  qed
  have y_hi: "y < (2 * P) * (2 * P)"
  proof -
    have "a * a \<le> (2 * P - q) * (2 * P - q)" using a_top a by (intro mult_mono) simp_all
    also have "\<dots> = P * P * ((2 - 1 / 2 ^ 52) * (2 - 1 / 2 ^ 52))"
      by (simp add: qP algebra_simps)
    finally have "a * a * (1 + eps) \<le> P * P * ((2 - 1 / 2 ^ 52) * (2 - 1 / 2 ^ 52)) * (1 + eps)"
      by (intro mult_right_mono) (simp_all add: eps_def)
    moreover have "y \<le> a * a * (1 + eps)" using y_err by (simp add: algebra_simps abs_le_iff)
    moreover have "P * P * ((2 - 1 / 2 ^ 52) * (2 - 1 / 2 ^ 52)) * (1 + eps) < P * P * 4"
    proof -
      have "((2 - 1 / 2 ^ 52) * (2 - 1 / 2 ^ 52)) * (1 + eps) < (4::real)" by (simp add: eps_def)
      then have "P * P * (((2 - 1 / 2 ^ 52) * (2 - 1 / 2 ^ 52)) * (1 + eps)) < P * P * 4"
        using P by (intro mult_strict_left_mono) simp_all
      then show ?thesis by (simp add: mult.assoc)
    qed
    ultimately show ?thesis by (simp add: algebra_simps)
  qed
  have y_fin: "y < 2 ^ 1024"
  proof -
    have "(2::real) powi (2 * e + 2) = 2 powi (2 * e) * 2 powi 2" by (rule power_int_add) simp
    then have "(2 * P) * (2 * P) = 2 powi (2 * e + 2)" by (simp add: PP [symmetric])
    also have "\<dots> \<le> 2 powi 1024" using e_hi by (intro power_int_increasing) simp_all
    finally show ?thesis using y_hi by (simp add: c511)
  qed
  have "0 < P * P" using P by simp
  with y_lo have y_pos: "0 < y" by linarith
  have sq: "pow2_binary64 (Finite u) = Finite y"
    using round_binary64_finite [of "a * a"] y_fin a by (simp add: y_def uu)
  define w where "w = sqrt y"
  have w: "0 < w" and ww: "w * w = y" using y_pos by (simp_all add: w_def)
  have w_lo: "P \<le> w" unfolding w_def
    by (rule real_le_rsqrt) (use y_lo in \<open>simp add: power2_eq_square\<close>)
  have w_hi: "w < 2 * P" unfolding w_def
    by (rule real_less_lsqrt) (use y_hi y_pos P in \<open>simp_all add: power2_eq_square\<close>)
  have near: "\<bar>w - a\<bar> < q / 2"
  proof (rule ccontr)
    assume "\<not> \<bar>w - a\<bar> < q / 2"
    then have far: "P * eps \<le> \<bar>w - a\<bar>" by (simp add: qP eps_def)
    have "(a * (1 - eps)) * (a * (1 - eps)) \<le> a * a * (1 - eps)"
    proof -
      have "(1 - eps) * (1 - eps) \<le> 1 - eps" by (simp add: eps_def)
      then have "a * a * ((1 - eps) * (1 - eps)) \<le> a * a * (1 - eps)"
        using a by (intro mult_left_mono) simp_all
      then show ?thesis by (simp add: algebra_simps)
    qed
    also have "\<dots> \<le> y" using y_err by (simp add: algebra_simps abs_le_iff)
    finally have "a * (1 - eps) \<le> w" unfolding w_def
      by (intro real_le_rsqrt) (simp add: power2_eq_square)
    then have sum: "a * (2 - eps) \<le> w + a" by (simp add: algebra_simps)
    have "\<bar>w - a\<bar> * (w + a) = \<bar>(w - a) * (w + a)\<bar>" using w a by (simp add: abs_mult)
    also have "(w - a) * (w + a) = y - a * a" by (simp add: algebra_simps ww)
    finally have prod: "\<bar>w - a\<bar> * (w + a) \<le> a * a * eps" using y_err by simp
    have "(P * eps) * (a * (2 - eps)) \<le> \<bar>w - a\<bar> * (w + a)"
      using far sum a P by (intro mult_mono) (simp_all add: eps_def)
    with prod have "(P * eps) * (a * (2 - eps)) \<le> a * a * eps" by linarith
    then have "(a * eps) * (P * (2 - eps)) \<le> (a * eps) * a" by (simp add: algebra_simps)
    then have "P * (2 - eps) \<le> a" using a by (simp add: eps_def)
    with a_top have "P * (2 - eps) \<le> 2 * P - q" by linarith
    then have "q \<le> P * eps" by (simp add: algebra_simps)
    then have "P / 2 ^ 52 \<le> P / 2 ^ 53" by (simp add: qP eps_def)
    with P show False by simp
  qed
  have "\<bar>w / q - of_int k\<bar> = \<bar>w - a\<bar> / q"
  proof -
    have "w / q - of_int k = (w - a) / q" using q grid by (simp add: field_simps)
    then show ?thesis using q by (simp add: abs_divide)
  qed
  also have "\<dots> < 1 / 2" using near q by (simp add: field_simps)
  finally have t: "\<bar>w / 2 powi (e - 52) - of_int k\<bar> < 1 / 2" by (simp add: q_def)
  have "round_binary64 w = Finite (of_int k * 2 powi (e - 52))"
  proof (rule round_eval_normal)
    show "0 < w" by (rule w)
    show "2 powi e \<le> w" using w_lo by (simp add: P_def)
    show "w < 2 powi (e + 1)" using w_hi by (simp add: P_def power_int_add)
    show "- 1022 \<le> e" using e_lo by simp
    show "\<bar>w / 2 powi (e - 52) - of_int k\<bar> < 1 / 2" by (rule t)
    show "of_int k * 2 powi (e - 52) < (2 ^ 1024 :: real)"
      using grid assms(3) by (simp add: q_def a_def)
  qed
  then have "round_binary64 (sqrt y) = Finite a" using grid by (simp add: w_def q_def)
  with sq y_pos show ?thesis by (simp add: a_def)
qed

lemma magnitude_minus: "magnitude_binary64 (- x) = magnitude_binary64 x"
  by (simp add: magnitude_binary64_def exponent_binary64_def)

lemma is_binary64_minus: "is_binary64 (- x) = is_binary64 x"
  by (auto simp: is_binary64_def round_binary64_def magnitude_minus)

lemma is_binary64_0: "is_binary64 0"
  by (simp add: is_binary64_def round_binary64_def)

lemma pow2_binary64_nonneg: "nonneg_binary64 (pow2_binary64 (Finite x))"
proof -
  have "0 \<le> x * x" by simp
  then show ?thesis using magnitude_nonneg [of "x * x"]
    by (auto simp: round_binary64_def)
qed

lemma close_roundtrip:
  assumes "finite_nonneg_binary64 a"
  shows "close_binary64 a (pow2_binary64 (pow_half_binary64 a))"
proof (cases a)
  case (Finite x)
  with assms have h: "x = 0 \<or> 1 / 2 ^ 1074 \<le> x" "x \<le> 2 ^ 1024 - 2 ^ 971" by simp_all
  have "(0::real) \<le> 1 / 2 ^ 1074" by simp
  with h(1) have "0 \<le> x" by linarith
  with roundtrip_constrained [OF h] Finite show ?thesis by auto
qed (use assms in simp_all)

lemma exact_roundtrip:
  assumes "normal_square_binary64 a"
  shows "pow_half_binary64 (pow2_binary64 a) = abs_binary64 a"
proof (cases a)
  case (Finite u)
  show ?thesis
  proof (cases "u = 0")
    case True
    with Finite show ?thesis by (simp add: round_binary64_def)
  next
    case False
    with assms Finite have "is_binary64 u" "1 / 2 ^ 511 \<le> \<bar>u\<bar>" "\<bar>u\<bar> < 2 ^ 512" by simp_all
    from roundtrip_unconstrained [OF this] Finite show ?thesis by simp
  qed
qed (use assms in simp_all)

lemma map_close_roundtrip:
  "list_all finite_nonneg_binary64 p \<Longrightarrow>
     list_all2 close_binary64 p (map pow2_binary64 (map pow_half_binary64 p))"
  by (induction p) (simp_all add: close_roundtrip)

lemma map_exact_roundtrip:
  "list_all normal_square_binary64 u \<Longrightarrow>
     map pow_half_binary64 (map pow2_binary64 u) = map abs_binary64 u"
  by (induction u) (simp_all add: exact_roundtrip)

lemma abs_binary64_fixed:
  "normal_square_binary64 a \<Longrightarrow> (abs_binary64 a = a) = nonneg_binary64 a"
  by (cases a) auto

lemma map_abs_binary64_fixed:
  "list_all normal_square_binary64 u \<Longrightarrow> (map abs_binary64 u = u) = list_all nonneg_binary64 u"
  by (induction u) (auto simp: abs_binary64_fixed)

text \<open>
  The square computed in float64 is the rounding of the exact square, and it is never
  negative: reading \<open>transform_params\<close> exactly loses nothing where only the sign of
  its result matters.
\<close>

lemma pow2_binary64_rounds_pow2:
  "pow2 (Num x) = Num y \<Longrightarrow> pow2_binary64 (Finite x) = round_binary64 y"
  by (auto simp: power2_eq_square)

lemma transform_params_binary64_nonneg:
  "list_all (\<lambda>a. a \<noteq> NotANumber) u \<Longrightarrow>
     list_all nonneg_binary64 (LocalLevel_transform_params_binary64 u) \<and>
     list_all nonneg_binary64 (LocalLevelConcentrated_transform_params_binary64 u)"
proof (induction u)
  case Nil
  show ?case
    by (simp add: LocalLevel_transform_params_binary64_def
        LocalLevelConcentrated_transform_params_binary64_def)
next
  case (Cons a u)
  from Cons.prems have "a \<noteq> NotANumber" by simp
  then have "nonneg_binary64 (pow2_binary64 a)"
    using pow2_binary64_nonneg by (cases a) (simp_all del: pow2_binary64.simps(1))
  with Cons show ?case
    by (simp add: LocalLevel_transform_params_binary64_def
        LocalLevelConcentrated_transform_params_binary64_def)
qed

lemma roundtrip_at_2:
  "map pow2_binary64 (map pow_half_binary64 [Finite 2]) = [Finite (4503599627370497 / 2 ^ 51)]"
  by (simp only: list.map pow_half_2 pow2_sqrt2)

lemma roundtrip_at_tiny:
  "map pow_half_binary64 (map pow2_binary64 [Finite (1 / 2 ^ 600)]) = [Finite 0]"
  by (simp only: list.map pow2_tiny pow_half_0)

text \<open>
  Claim C8, as the code has it. In float64 arithmetic neither round trip is the
  identity: \<open>transform_params (untransform_params [2.0])\<close> is
  \<open>[2.0000000000000004]\<close> (the square root is rounded, and so is its square), and
  \<open>untransform_params (transform_params [2 ** -600])\<close> is \<open>[0.0]\<close> (the square
  underflows), in both classes.
\<close>

theorem transform_untransform_roundtrip_counterexample:
  "is_binary64 2 \<and>
   LocalLevel_transform_params_binary64 (LocalLevel_untransform_params_binary64 [Finite 2])
     = [Finite (4503599627370497 / 2 ^ 51)] \<and>
   LocalLevel_transform_params_binary64 (LocalLevel_untransform_params_binary64 [Finite 2])
     \<noteq> [Finite 2] \<and>
   LocalLevelConcentrated_transform_params_binary64
     (LocalLevelConcentrated_untransform_params_binary64 [Finite 2]) \<noteq> [Finite 2] \<and>
   is_binary64 (1 / 2 ^ 600) \<and>
   LocalLevel_untransform_params_binary64
     (LocalLevel_transform_params_binary64 [Finite (1 / 2 ^ 600)]) = [Finite 0] \<and>
   LocalLevel_untransform_params_binary64
     (LocalLevel_transform_params_binary64 [Finite (1 / 2 ^ 600)])
     \<noteq> map abs_binary64 [Finite (1 / 2 ^ 600)] \<and>
   LocalLevelConcentrated_untransform_params_binary64
     (LocalLevelConcentrated_transform_params_binary64 [Finite (1 / 2 ^ 600)])
     \<noteq> map abs_binary64 [Finite (1 / 2 ^ 600)]"
  unfolding LocalLevel_transform_params_binary64_def
    LocalLevel_untransform_params_binary64_def
    LocalLevelConcentrated_transform_params_binary64_def
    LocalLevelConcentrated_untransform_params_binary64_def
    roundtrip_at_2 roundtrip_at_tiny
  using is_binary64_2 is_binary64_tiny by simp

text \<open>
  Claim C8, amended. For a constrained vector \<open>p\<close> of finite non-negative float64
  entries, every entry of \<open>transform_params (untransform_params p)\<close> is finite and
  within \<open>p / 2 ^ 51 + 2 ^ -1075\<close> of the entry of \<open>p\<close>, in \<open>LocalLevel\<close>
  and in \<open>LocalLevelConcentrated\<close>. For a vector \<open>u\<close> of float64 entries whose
  squares neither underflow nor overflow (each entry is zero or has a magnitude in
  \<open>[2 ^ -511, 2 ^ 512)\<close>), \<open>untransform_params (transform_params u)\<close> is
  exactly the elementwise absolute value of \<open>u\<close>, so that round trip gives back
  \<open>u\<close> exactly when every entry of \<open>u\<close> is non-negative.
\<close>

theorem transform_untransform_roundtrip_rounded:
  "(list_all finite_nonneg_binary64 p \<longrightarrow>
      list_all2 close_binary64 p
        (LocalLevel_transform_params_binary64 (LocalLevel_untransform_params_binary64 p)) \<and>
      list_all2 close_binary64 p
        (LocalLevelConcentrated_transform_params_binary64
          (LocalLevelConcentrated_untransform_params_binary64 p))) \<and>
   (list_all normal_square_binary64 u \<longrightarrow>
      LocalLevel_untransform_params_binary64 (LocalLevel_transform_params_binary64 u)
        = map abs_binary64 u \<and>
      LocalLevelConcentrated_untransform_params_binary64
        (LocalLevelConcentrated_transform_params_binary64 u) = map abs_binary64 u \<and>
      (LocalLevel_untransform_params_binary64 (LocalLevel_transform_params_binary64 u) = u)
        = list_all nonneg_binary64 u \<and>
      (LocalLevelConcentrated_untransform_params_binary64
         (LocalLevelConcentrated_transform_params_binary64 u) = u)
        = list_all nonneg_binary64 u)"
  unfolding LocalLevel_transform_params_binary64_def LocalLevel_untransform_params_binary64_def
    LocalLevelConcentrated_transform_params_binary64_def
    LocalLevelConcentrated_untransform_params_binary64_def
  using map_close_roundtrip [of p] map_exact_roundtrip [of u] map_abs_binary64_fixed [of u]
  by metis

theorem transform_untransform_roundtrip_rounded_witness:
  "list_all finite_nonneg_binary64 [Finite 2, Finite 0] \<and>
   list_all2 close_binary64 [Finite 2, Finite 0]
     (LocalLevel_transform_params_binary64
       (LocalLevel_untransform_params_binary64 [Finite 2, Finite 0])) \<and>
   list_all normal_square_binary64 [Finite (- 2), Finite 0] \<and>
   LocalLevel_untransform_params_binary64
     (LocalLevel_transform_params_binary64 [Finite (- 2), Finite 0]) = [Finite 2, Finite 0] \<and>
   LocalLevel_untransform_params_binary64
     (LocalLevel_transform_params_binary64 [Finite (- 2), Finite 0]) \<noteq> [Finite (- 2), Finite 0] \<and>
   \<not> list_all nonneg_binary64 [Finite (- 2), Finite 0]"
proof -
  have a: "list_all finite_nonneg_binary64 [Finite 2, Finite 0]" by simp
  have b: "list_all normal_square_binary64 [Finite (- 2), Finite 0]"
    using is_binary64_2 by (simp add: is_binary64_minus is_binary64_0)
  note t = transform_untransform_roundtrip_rounded
    [of "[Finite 2, Finite 0]" "[Finite (- 2), Finite 0]"]
  from t a have c: "list_all2 close_binary64 [Finite 2, Finite 0]
     (LocalLevel_transform_params_binary64
       (LocalLevel_untransform_params_binary64 [Finite 2, Finite 0]))"
    by blast
  from t b have d: "LocalLevel_untransform_params_binary64
     (LocalLevel_transform_params_binary64 [Finite (- 2), Finite 0])
       = map abs_binary64 [Finite (- 2), Finite 0]"
    by blast
  have e: "map abs_binary64 [Finite (- 2), Finite 0] = [Finite 2, Finite 0]" by simp
  have f: "[Finite 2, Finite 0] \<noteq> [Finite (- 2), Finite 0]" by simp
  have g: "\<not> list_all nonneg_binary64 [Finite (- 2), Finite 0]" by simp
  from a b c d e f g show ?thesis by (simp only: simp_thms)
qed

section \<open>The frame of update\<close>

lemma setitem2_00_same: "setitem2 A 0 0 v = Inr B \<Longrightarrow> same_except00 A B"
  by (cases A; cases "hd A") (auto simp: setitem2_def split: if_splits)

lemma setitem2_00_get: "setitem2 A 0 0 v = Inr B \<Longrightarrow> getitem2 B 0 0 = Inr v"
  by (auto simp: setitem2_def getitem2_def split: if_splits)

lemma same_except00_refl: "same_except00 A A"
  by (cases A; cases "hd A") auto

lemma same_except00_getitem2:
  "same_except00 A B \<Longrightarrow> (i, j) \<noteq> (0, 0) \<Longrightarrow> getitem2 A i j = getitem2 B i j"
  apply (induction A B rule: same_except00.induct)
  apply (auto simp: getitem2_def nth_Cons split: nat.splits)
  done

lemma set_state_cov_frame:
  "set_state_cov 0 0 v m = (e, m') \<Longrightarrow>
     m' = m\<lparr>state_cov := state_cov m'\<rparr> \<and> same_except00 (state_cov m) (state_cov m')"
  by (auto simp: set_state_cov_def same_except00_refl setitem2_00_same split: sum.splits)

lemma set_obs_cov_frame:
  "set_obs_cov 0 0 v m = (e, m') \<Longrightarrow>
     m' = m\<lparr>obs_cov := obs_cov m'\<rparr> \<and> same_except00 (obs_cov m) (obs_cov m')"
  by (auto simp: set_obs_cov_def same_except00_refl setitem2_00_same split: sum.splits)

lemma LocalLevel_update_frame:
  "snd (LocalLevel_update su m p) =
      m\<lparr>state_cov := state_cov (snd (LocalLevel_update su m p)),
        obs_cov := obs_cov (snd (LocalLevel_update su m p))\<rparr> \<and>
   same_except00 (state_cov m) (state_cov (snd (LocalLevel_update su m p))) \<and>
   same_except00 (obs_cov m) (obs_cov (snd (LocalLevel_update su m p)))"
  by (auto simp: LocalLevel_update_def Let_def then_do_def same_except00_refl
      set_state_cov_def set_obs_cov_def setitem2_00_same
      split: sum.splits option.splits prod.splits)

lemma LocalLevelConcentrated_update_frame:
  "snd (LocalLevelConcentrated_update su m p) =
      m\<lparr>obs_cov := obs_cov (snd (LocalLevelConcentrated_update su m p))\<rparr> \<and>
   same_except00 (obs_cov m) (obs_cov (snd (LocalLevelConcentrated_update su m p)))"
  by (auto simp: LocalLevelConcentrated_update_def Let_def same_except00_refl
      set_obs_cov_def setitem2_00_same
      split: sum.splits option.splits prod.splits)


lemma updates_LocalLevel_frame:
  "design (updates LocalLevel_update calls m) = design m \<and>
   transition (updates LocalLevel_update calls m) = transition m \<and>
   selection (updates LocalLevel_update calls m) = selection m"
proof (induction calls arbitrary: m)
  case Nil
  show ?case by simp
next
  case (Cons c calls)
  obtain su p where c: "c = (su, p)" by (cases c)
  let ?m1 = "snd (LocalLevel_update su m p)"
  have "?m1 = m\<lparr>state_cov := state_cov ?m1, obs_cov := obs_cov ?m1\<rparr>"
    using LocalLevel_update_frame [of su m p] by blast
  then have "design ?m1 = design m \<and> transition ?m1 = transition m \<and> selection ?m1 = selection m"
    by (metis model.select_convs model.update_convs model.surjective)
  with Cons.IH [of ?m1] c show ?case by simp
qed


lemma updates_LocalLevelConcentrated_frame:
  "design (updates LocalLevelConcentrated_update calls m) = design m \<and>
   transition (updates LocalLevelConcentrated_update calls m) = transition m \<and>
   selection (updates LocalLevelConcentrated_update calls m) = selection m \<and>
   state_cov (updates LocalLevelConcentrated_update calls m) = state_cov m"
proof (induction calls arbitrary: m)
  case Nil
  show ?case by simp
next
  case (Cons c calls)
  obtain su p where c: "c = (su, p)" by (cases c)
  let ?m1 = "snd (LocalLevelConcentrated_update su m p)"
  have "?m1 = m\<lparr>obs_cov := obs_cov ?m1\<rparr>"
    using LocalLevelConcentrated_update_frame [of su m p] by blast
  then have "design ?m1 = design m \<and> transition ?m1 = transition m \<and>
      selection ?m1 = selection m \<and> state_cov ?m1 = state_cov m"
    by (metis model.select_convs model.update_convs model.surjective)
  with Cons.IH [of ?m1] c show ?case by simp
qed

lemma set_design_ok: "set_design 0 0 v m = (None, m') \<Longrightarrow>
    getitem2 (design m') 0 0 = Inr v \<and> m' = m\<lparr>design := design m'\<rparr>"
  by (auto simp: set_design_def setitem2_00_get split: sum.splits)

lemma set_transition_ok: "set_transition 0 0 v m = (None, m') \<Longrightarrow>
    getitem2 (transition m') 0 0 = Inr v \<and> m' = m\<lparr>transition := transition m'\<rparr>"
  by (auto simp: set_transition_def setitem2_00_get split: sum.splits)

lemma set_selection_ok: "set_selection 0 0 v m = (None, m') \<Longrightarrow>
    getitem2 (selection m') 0 0 = Inr v \<and> m' = m\<lparr>selection := selection m'\<rparr>"
  by (auto simp: set_selection_def setitem2_00_get split: sum.splits)

lemma set_state_cov_ok: "set_state_cov 0 0 v m = (None, m') \<Longrightarrow>
    getitem2 (state_cov m') 0 0 = Inr v \<and> m' = m\<lparr>state_cov := state_cov m'\<rparr>"
  by (auto simp: set_state_cov_def setitem2_00_get split: sum.splits)

lemma set_obs_cov_ok: "set_obs_cov 0 0 v m = (None, m') \<Longrightarrow>
    getitem2 (obs_cov m') 0 0 = Inr v \<and> m' = m\<lparr>obs_cov := obs_cov m'\<rparr>"
  by (auto simp: set_obs_cov_def setitem2_00_get split: sum.splits)

lemma then_do_None: "then_do r f = (None, m') \<Longrightarrow> \<exists>m1. r = (None, m1) \<and> f m1 = (None, m')"
  by (auto simp: then_do_def split: prod.splits option.splits)

lemma LocalLevel_init_ones:
  assumes "LocalLevel_init m0 = (None, m)"
  shows "getitem2 (design m) 0 0 = Inr (Num 1) \<and> getitem2 (transition m) 0 0 = Inr (Num 1) \<and>
    getitem2 (selection m) 0 0 = Inr (Num 1)"
proof -
  from assms obtain m2 where a: "then_do (set_design 0 0 (Num 1) m0) (set_transition 0 0 (Num 1)) = (None, m2)"
    and b: "set_selection 0 0 (Num 1) m2 = (None, m)"
    unfolding LocalLevel_init_def by (blast dest: then_do_None)
  from a obtain m1 where c: "set_design 0 0 (Num 1) m0 = (None, m1)"
    and d: "set_transition 0 0 (Num 1) m1 = (None, m2)"
    by (blast dest: then_do_None)
  have 1: "getitem2 (design m1) 0 0 = Inr (Num 1)" using set_design_ok [OF c] by simp
  have 2: "getitem2 (transition m2) 0 0 = Inr (Num 1)" "design m2 = design m1"
    using set_transition_ok [OF d] by (simp, metis model.select_convs model.update_convs model.surjective)
  have 3: "getitem2 (selection m) 0 0 = Inr (Num 1)" "design m = design m2" "transition m = transition m2"
    using set_selection_ok [OF b] by (simp, (metis model.select_convs model.update_convs model.surjective)+)
  from 1 2 3 show ?thesis by simp
qed


lemma LocalLevelConcentrated_init_ones:
  assumes "LocalLevelConcentrated_init m0 = (None, m)"
  shows "getitem2 (design m) 0 0 = Inr (Num 1) \<and> getitem2 (transition m) 0 0 = Inr (Num 1) \<and>
    getitem2 (selection m) 0 0 = Inr (Num 1) \<and> getitem2 (state_cov m) 0 0 = Inr (Num 1) \<and>
    filter_concentrated m"
proof -
  from assms obtain m4 where e: "then_do (then_do (then_do (set_design 0 0 (Num 1) m0)
       (set_transition 0 0 (Num 1))) (set_selection 0 0 (Num 1))) (set_state_cov 0 0 (Num 1)) = (None, m4)"
    and f: "m = m4\<lparr>filter_concentrated := True\<rparr>"
    using then_do_None [OF assms [unfolded LocalLevelConcentrated_init_def]] by auto
  from e obtain m3 where g: "LocalLevel_init m0 = (None, m3)"
    and h: "set_state_cov 0 0 (Num 1) m3 = (None, m4)"
    unfolding LocalLevel_init_def by (blast dest: then_do_None)
  have 4: "getitem2 (state_cov m4) 0 0 = Inr (Num 1)" "design m4 = design m3"
    "transition m4 = transition m3" "selection m4 = selection m3"
    using set_state_cov_ok [OF h]
    by (simp, (metis model.select_convs model.update_convs model.surjective)+)
  from LocalLevel_init_ones [OF g] 4 f show ?thesis by simp
qed

lemma LocalLevel_init_base:
  "LocalLevel_init (MLEModel_init 1 1) =
     (None, \<lparr> design = [[Num 1]], obs_intercept = [[Num 0]], obs_cov = [[Num 0]],
       transition = [[Num 1]], state_intercept = [[Num 0]], selection = [[Num 1]],
       state_cov = [[Num 0]], filter_concentrated = False \<rparr>)"
  by (simp add: LocalLevel_init_def MLEModel_init_def zeros_def then_do_def set_design_def
      set_transition_def set_selection_def setitem2_def)

lemma LocalLevelConcentrated_init_base:
  "LocalLevelConcentrated_init (MLEModel_init 1 1) =
     (None, \<lparr> design = [[Num 1]], obs_intercept = [[Num 0]], obs_cov = [[Num 0]],
       transition = [[Num 1]], state_intercept = [[Num 0]], selection = [[Num 1]],
       state_cov = [[Num 1]], filter_concentrated = True \<rparr>)"
  by (simp add: LocalLevelConcentrated_init_def MLEModel_init_def zeros_def then_do_def
      set_design_def set_transition_def set_selection_def set_state_cov_def setitem2_def)

text \<open>
  Claim C9. Whatever parameter vector \<open>update\<close> is called with (and whatever the
  base class hands back for it), \<open>LocalLevel.update\<close> leaves the object as it was
  but for the entries \<open>[0, 0]\<close> of \<open>state_cov\<close> and \<open>obs_cov\<close>, and
  \<open>LocalLevelConcentrated.update\<close> but for the entry \<open>[0, 0]\<close> of
  \<open>obs_cov\<close>; this holds also for a call that raises. So after a constructor that
  returned, the entries of design, transition and selection it set to 1 (and
  \<open>state_cov[0, 0] = 1\<close> in \<open>LocalLevelConcentrated\<close>) are still 1 after any
  sequence of \<open>update\<close> calls.
\<close>

theorem update_frame:
  "snd (LocalLevel_update su m p) =
      m\<lparr>state_cov := state_cov (snd (LocalLevel_update su m p)),
        obs_cov := obs_cov (snd (LocalLevel_update su m p))\<rparr> \<and>
   same_except00 (state_cov m) (state_cov (snd (LocalLevel_update su m p))) \<and>
   same_except00 (obs_cov m) (obs_cov (snd (LocalLevel_update su m p))) \<and>
   snd (LocalLevelConcentrated_update su m p) =
      m\<lparr>obs_cov := obs_cov (snd (LocalLevelConcentrated_update su m p))\<rparr> \<and>
   same_except00 (obs_cov m) (obs_cov (snd (LocalLevelConcentrated_update su m p))) \<and>
   (LocalLevel_init m0 = (None, m1) \<longrightarrow>
      getitem2 (design (updates LocalLevel_update calls m1)) 0 0 = Inr (Num 1) \<and>
      getitem2 (transition (updates LocalLevel_update calls m1)) 0 0 = Inr (Num 1) \<and>
      getitem2 (selection (updates LocalLevel_update calls m1)) 0 0 = Inr (Num 1)) \<and>
   (LocalLevelConcentrated_init m0 = (None, m2) \<longrightarrow>
      getitem2 (design (updates LocalLevelConcentrated_update calls' m2)) 0 0 = Inr (Num 1) \<and>
      getitem2 (transition (updates LocalLevelConcentrated_update calls' m2)) 0 0 = Inr (Num 1) \<and>
      getitem2 (selection (updates LocalLevelConcentrated_update calls' m2)) 0 0 = Inr (Num 1) \<and>
      getitem2 (state_cov (updates LocalLevelConcentrated_update calls' m2)) 0 0 = Inr (Num 1))"
  using LocalLevel_update_frame [of su m p] LocalLevelConcentrated_update_frame [of su m p]
    LocalLevel_init_ones [of m0 m1] LocalLevelConcentrated_init_ones [of m0 m2]
    updates_LocalLevel_frame [of calls m1] updates_LocalLevelConcentrated_frame [of calls' m2]
  by simp

theorem update_frame_witness:
  "LocalLevel_init (MLEModel_init 1 1) =
     (None, \<lparr> design = [[Num 1]], obs_intercept = [[Num 0]], obs_cov = [[Num 0]],
       transition = [[Num 1]], state_intercept = [[Num 0]], selection = [[Num 1]],
       state_cov = [[Num 0]], filter_concentrated = False \<rparr>) \<and>
   getitem2 (design (updates LocalLevel_update
     [(MLEModel_update LocalLevel_transform_params False, [Num (- 3), Num 2]),
      (MLEModel_update LocalLevel_transform_params True, [Num 5])]
     \<lparr> design = [[Num 1]], obs_intercept = [[Num 0]], obs_cov = [[Num 0]],
       transition = [[Num 1]], state_intercept = [[Num 0]], selection = [[Num 1]],
       state_cov = [[Num 0]], filter_concentrated = False \<rparr>)) 0 0 = Inr (Num 1) \<and>
   LocalLevelConcentrated_init (MLEModel_init 1 1) =
     (None, \<lparr> design = [[Num 1]], obs_intercept = [[Num 0]], obs_cov = [[Num 0]],
       transition = [[Num 1]], state_intercept = [[Num 0]], selection = [[Num 1]],
       state_cov = [[Num 1]], filter_concentrated = True \<rparr>) \<and>
   getitem2 (state_cov (updates LocalLevelConcentrated_update
     [(MLEModel_update LocalLevelConcentrated_transform_params False, [Num 7])]
     \<lparr> design = [[Num 1]], obs_intercept = [[Num 0]], obs_cov = [[Num 0]],
       transition = [[Num 1]], state_intercept = [[Num 0]], selection = [[Num 1]],
       state_cov = [[Num 1]], filter_concentrated = True \<rparr>)) 0 0 = Inr (Num 1)"
  using update_frame [of id "MLEModel_init 1 1" "[]" "MLEModel_init 1 1"
      "\<lparr> design = [[Num 1]], obs_intercept = [[Num 0]], obs_cov = [[Num 0]],
       transition = [[Num 1]], state_intercept = [[Num 0]], selection = [[Num 1]],
       state_cov = [[Num 0]], filter_concentrated = False \<rparr>"
      "[(MLEModel_update LocalLevel_transform_params False, [Num (- 3), Num 2]),
        (MLEModel_update LocalLevel_transform_params True, [Num 5])]"
      "\<lparr> design = [[Num 1]], obs_intercept = [[Num 0]], obs_cov = [[Num 0]],
       transition = [[Num 1]], state_intercept = [[Num 0]], selection = [[Num 1]],
       state_cov = [[Num 1]], filter_concentrated = True \<rparr>"
      "[(MLEModel_update LocalLevelConcentrated_transform_params False, [Num 7])]"]
    LocalLevel_init_base LocalLevelConcentrated_init_base
  by simp

section \<open>Variances written by update\<close>

lemma getitem_list_all: "list_all P xs \<Longrightarrow> getitem xs i = Inr v \<Longrightarrow> P v"
  by (auto simp: getitem_def list_all_length split: if_splits)

lemma nonneg00_set: "setitem2 A 0 0 v = Inr B \<Longrightarrow> nonneg v \<Longrightarrow> nonneg00 B"
  by (simp add: nonneg00_def setitem2_00_get)

lemma set_state_cov_nonneg:
  "nonneg v \<Longrightarrow> set_state_cov 0 0 v m = (e, m') \<Longrightarrow>
     obs_cov m' = obs_cov m \<and>
     (state_cov m' = state_cov m \<or> nonneg00 (state_cov m')) \<and>
     (e = None \<longrightarrow> nonneg00 (state_cov m'))"
  by (auto simp: set_state_cov_def nonneg00_set split: sum.splits)

lemma set_obs_cov_nonneg:
  "nonneg v \<Longrightarrow> set_obs_cov 0 0 v m = (e, m') \<Longrightarrow>
     state_cov m' = state_cov m \<and>
     (obs_cov m' = obs_cov m \<or> nonneg00 (obs_cov m')) \<and>
     (e = None \<longrightarrow> nonneg00 (obs_cov m'))"
  by (auto simp: set_obs_cov_def nonneg00_set split: sum.splits)

lemma LocalLevel_update_nonneg:
  assumes "list_all nonneg (su u)"
  shows "(state_cov (snd (LocalLevel_update su m u)) = state_cov m \<or>
            nonneg00 (state_cov (snd (LocalLevel_update su m u)))) \<and>
         (obs_cov (snd (LocalLevel_update su m u)) = obs_cov m \<or>
            nonneg00 (obs_cov (snd (LocalLevel_update su m u)))) \<and>
         (fst (LocalLevel_update su m u) = None \<longrightarrow>
            nonneg00 (state_cov (snd (LocalLevel_update su m u))) \<and>
            nonneg00 (obs_cov (snd (LocalLevel_update su m u))))"
proof (cases "getitem (su u) 0")
  case (Inl e)
  then show ?thesis by (simp add: LocalLevel_update_def)
next
  case (Inr p0)
  then have p0: "nonneg p0" using assms getitem_list_all by blast
  obtain e1 m1 where s1: "set_state_cov 0 0 p0 m = (e1, m1)" by (cases "set_state_cov 0 0 p0 m")
  note f1 = set_state_cov_nonneg [OF p0 s1]
  show ?thesis
  proof (cases e1)
    case (Some e)
    with Inr s1 f1 show ?thesis by (simp add: LocalLevel_update_def then_do_def)
  next
    case None
    show ?thesis
    proof (cases "getitem (su u) 1")
      case (Inl e)
      with Inr s1 f1 None show ?thesis by (simp add: LocalLevel_update_def then_do_def)
    next
      case p1: (Inr p1)
      then have "nonneg p1" using assms getitem_list_all by blast
      obtain e2 m2 where s2: "set_obs_cov 0 0 p1 m1 = (e2, m2)" by (cases "set_obs_cov 0 0 p1 m1")
      note f2 = set_obs_cov_nonneg [OF \<open>nonneg p1\<close> s2]
      have "LocalLevel_update su m u = (e2, m2)"
        using Inr s1 None p1 s2 by (simp add: LocalLevel_update_def then_do_def)
      with f1 f2 None show ?thesis by auto
    qed
  qed
qed

lemma LocalLevelConcentrated_update_nonneg:
  assumes "list_all nonneg (su u)"
  shows "state_cov (snd (LocalLevelConcentrated_update su m u)) = state_cov m \<and>
         (obs_cov (snd (LocalLevelConcentrated_update su m u)) = obs_cov m \<or>
            nonneg00 (obs_cov (snd (LocalLevelConcentrated_update su m u)))) \<and>
         (fst (LocalLevelConcentrated_update su m u) = None \<longrightarrow>
            nonneg00 (obs_cov (snd (LocalLevelConcentrated_update su m u))))"
proof (cases "getitem (su u) 0")
  case (Inl e)
  then show ?thesis by (simp add: LocalLevelConcentrated_update_def)
next
  case (Inr p0)
  then have p0: "nonneg p0" using assms getitem_list_all by blast
  obtain e1 m1 where s1: "set_obs_cov 0 0 p0 m = (e1, m1)" by (cases "set_obs_cov 0 0 p0 m")
  from set_obs_cov_nonneg [OF p0 s1] Inr s1 show ?thesis
    by (simp add: LocalLevelConcentrated_update_def)
qed

lemma pow2_nonneg: "is_real x \<Longrightarrow> nonneg (pow2 x)"
  by (cases x) simp_all

lemma map_pow2_nonneg: "list_all is_real u \<Longrightarrow> list_all nonneg (map pow2 u)"
  by (induction u) (simp_all add: pow2_nonneg)

text \<open>
  Claim C10. For a real-valued unconstrained vector \<open>u\<close> (no nan entry) every entry
  of \<open>transform_params u = u ** 2\<close> is non-negative, in both classes. So when
  \<open>update\<close> is called with \<open>u\<close> and \<open>transformed=False\<close>, each of
  \<open>state_cov\<close> and \<open>obs_cov\<close> is either left as it was or has a non-negative
  entry \<open>[0, 0]\<close>, and after a call that returned the entries written
  (\<open>state_cov[0, 0]\<close> and \<open>obs_cov[0, 0]\<close> in \<open>LocalLevel\<close>,
  \<open>obs_cov[0, 0]\<close> in \<open>LocalLevelConcentrated\<close>, which never writes
  \<open>state_cov\<close>) are non-negative.
\<close>

theorem transform_params_nonneg:
  "list_all is_real u \<longrightarrow>
     list_all nonneg (LocalLevel_transform_params u) \<and>
     list_all nonneg (LocalLevelConcentrated_transform_params u) \<and>
     (state_cov (snd (LocalLevel_update (MLEModel_update LocalLevel_transform_params False) m u))
        = state_cov m \<or>
      nonneg00 (state_cov (snd
        (LocalLevel_update (MLEModel_update LocalLevel_transform_params False) m u)))) \<and>
     (obs_cov (snd (LocalLevel_update (MLEModel_update LocalLevel_transform_params False) m u))
        = obs_cov m \<or>
      nonneg00 (obs_cov (snd
        (LocalLevel_update (MLEModel_update LocalLevel_transform_params False) m u)))) \<and>
     (fst (LocalLevel_update (MLEModel_update LocalLevel_transform_params False) m u) = None \<longrightarrow>
        nonneg00 (state_cov (snd
          (LocalLevel_update (MLEModel_update LocalLevel_transform_params False) m u))) \<and>
        nonneg00 (obs_cov (snd
          (LocalLevel_update (MLEModel_update LocalLevel_transform_params False) m u)))) \<and>
     state_cov (snd (LocalLevelConcentrated_update
        (MLEModel_update LocalLevelConcentrated_transform_params False) m u)) = state_cov m \<and>
     (obs_cov (snd (LocalLevelConcentrated_update
        (MLEModel_update LocalLevelConcentrated_transform_params False) m u)) = obs_cov m \<or>
      nonneg00 (obs_cov (snd (LocalLevelConcentrated_update
        (MLEModel_update LocalLevelConcentrated_transform_params False) m u)))) \<and>
     (fst (LocalLevelConcentrated_update
        (MLEModel_update LocalLevelConcentrated_transform_params False) m u) = None \<longrightarrow>
        nonneg00 (obs_cov (snd (LocalLevelConcentrated_update
          (MLEModel_update LocalLevelConcentrated_transform_params False) m u))))"
proof
  assume u: "list_all is_real u"
  have a: "list_all nonneg (LocalLevel_transform_params u)"
    using u by (simp add: LocalLevel_transform_params_def map_pow2_nonneg)
  have b: "list_all nonneg (LocalLevelConcentrated_transform_params u)"
    using u by (simp add: LocalLevelConcentrated_transform_params_def map_pow2_nonneg)
  have a': "list_all nonneg (MLEModel_update LocalLevel_transform_params False u)"
    using a by (simp add: MLEModel_update_def)
  have b': "list_all nonneg (MLEModel_update LocalLevelConcentrated_transform_params False u)"
    using b by (simp add: MLEModel_update_def)
  from a b
    LocalLevel_update_nonneg [of "MLEModel_update LocalLevel_transform_params False" u m, OF a']
    LocalLevelConcentrated_update_nonneg
      [of "MLEModel_update LocalLevelConcentrated_transform_params False" u m, OF b']
  show "list_all nonneg (LocalLevel_transform_params u) \<and>
     list_all nonneg (LocalLevelConcentrated_transform_params u) \<and>
     (state_cov (snd (LocalLevel_update (MLEModel_update LocalLevel_transform_params False) m u))
        = state_cov m \<or>
      nonneg00 (state_cov (snd
        (LocalLevel_update (MLEModel_update LocalLevel_transform_params False) m u)))) \<and>
     (obs_cov (snd (LocalLevel_update (MLEModel_update LocalLevel_transform_params False) m u))
        = obs_cov m \<or>
      nonneg00 (obs_cov (snd
        (LocalLevel_update (MLEModel_update LocalLevel_transform_params False) m u)))) \<and>
     (fst (LocalLevel_update (MLEModel_update LocalLevel_transform_params False) m u) = None \<longrightarrow>
        nonneg00 (state_cov (snd
          (LocalLevel_update (MLEModel_update LocalLevel_transform_params False) m u))) \<and>
        nonneg00 (obs_cov (snd
          (LocalLevel_update (MLEModel_update LocalLevel_transform_params False) m u)))) \<and>
     state_cov (snd (LocalLevelConcentrated_update
        (MLEModel_update LocalLevelConcentrated_transform_params False) m u)) = state_cov m \<and>
     (obs_cov (snd (LocalLevelConcentrated_update
        (MLEModel_update LocalLevelConcentrated_transform_params False) m u)) = obs_cov m \<or>
      nonneg00 (obs_cov (snd (LocalLevelConcentrated_update
        (MLEModel_update LocalLevelConcentrated_transform_params False) m u)))) \<and>
     (fst (LocalLevelConcentrated_update
        (MLEModel_update LocalLevelConcentrated_transform_params False) m u) = None \<longrightarrow>
        nonneg00 (obs_cov (snd (LocalLevelConcentrated_update
          (MLEModel_update LocalLevelConcentrated_transform_params False) m u))))"
    by blast
qed

theorem transform_params_nonneg_witness:
  "list_all is_real [Num (- 3), Num 2] \<and>
   LocalLevel_transform_params [Num (- 3), Num 2] = [Num 9, Num 4] \<and>
   list_all nonneg (LocalLevel_transform_params [Num (- 3), Num 2]) \<and>
   LocalLevel_update (MLEModel_update LocalLevel_transform_params False)
       (MLEModel_init 1 1) [Num (- 3), Num 2] =
     (None, (MLEModel_init 1 1)\<lparr>state_cov := [[Num 9]], obs_cov := [[Num 4]]\<rparr>) \<and>
   nonneg00 (state_cov (snd (LocalLevel_update (MLEModel_update LocalLevel_transform_params False)
       (MLEModel_init 1 1) [Num (- 3), Num 2]))) \<and>
   nonneg00 (obs_cov (snd (LocalLevel_update (MLEModel_update LocalLevel_transform_params False)
       (MLEModel_init 1 1) [Num (- 3), Num 2]))) \<and>
   LocalLevelConcentrated_update (MLEModel_update LocalLevelConcentrated_transform_params False)
       (MLEModel_init 1 1) [Num (- 3), Num 2] =
     (None, (MLEModel_init 1 1)\<lparr>obs_cov := [[Num 9]]\<rparr>) \<and>
   nonneg00 (obs_cov (snd (LocalLevelConcentrated_update
       (MLEModel_update LocalLevelConcentrated_transform_params False)
       (MLEModel_init 1 1) [Num (- 3), Num 2])))"
  using transform_params_nonneg [of "[Num (- 3), Num 2]" "MLEModel_init 1 1"]
  by (simp add: LocalLevel_transform_params_def LocalLevelConcentrated_transform_params_def
      LocalLevel_update_def LocalLevelConcentrated_update_def MLEModel_update_def
      MLEModel_init_def zeros_def getitem_def then_do_def set_state_cov_def set_obs_cov_def
      setitem2_def nonneg00_def getitem2_def)

section \<open>The filtering pass under a change of scale\<close>

lemma filter_step_scale:
  assumes "0 < c"
  shows "filter_step (c * Q) (c * H) (scale_state c s) y = map_option (scale_state c) (filter_step Q H s y)"
proof (cases y)
  case NaN
  then show ?thesis by (simp add: scale_state_def algebra_simps)
next
  case (Num r)
  show ?thesis
  proof (cases "diffuse s")
    case True
    with Num show ?thesis by (simp add: scale_state_def algebra_simps)
  next
    case False
    let ?F = "predicted_state_cov s + H"
    have F: "c * predicted_state_cov s + c * H = c * ?F" by (simp add: algebra_simps)
    show ?thesis
    proof (cases "?F \<le> 0")
      case True
      then have "c * ?F \<le> 0" using assms by (simp add: mult_le_0_iff)
      with True False Num show ?thesis by (simp add: scale_state_def Let_def F del: distrib_left)
    next
      case pos: False
      then have "0 < c * ?F" using assms by simp
      then have n: "\<not> c * ?F \<le> 0" by simp
      have l: "ln (c * ?F) = ln c + ln ?F" using pos assms by (simp add: ln_mult_pos)
      have k: "c * predicted_state_cov s / (c * ?F) = predicted_state_cov s / ?F"
        using assms by simp
      have F0: "?F \<noteq> 0" "c \<noteq> 0" using pos assms by simp_all
      have lhs: "filter_step (c * Q) (c * H) (scale_state c s) y =
        Some (s\<lparr>predicted_state := predicted_state s
                   + c * predicted_state_cov s / (c * ?F) * (r - predicted_state s),
                 predicted_state_cov := c * predicted_state_cov s
                   * (1 - c * predicted_state_cov s / (c * ?F)) + c * Q,
                 nobs_effective := nobs_effective s + 1,
                 scale_sum := scale_sum s / c + (r - predicted_state s)\<^sup>2 / (c * ?F),
                 logdet_sum := logdet_sum s + real (nobs_effective s) * ln c + ln (c * ?F)\<rparr>)"
        using False Num n by (simp add: scale_state_def Let_def F del: distrib_left)
      have rhs: "map_option (scale_state c) (filter_step Q H s y) =
        Some (s\<lparr>predicted_state := predicted_state s
                   + predicted_state_cov s / ?F * (r - predicted_state s),
                 predicted_state_cov := c * (predicted_state_cov s
                   * (1 - predicted_state_cov s / ?F) + Q),
                 nobs_effective := nobs_effective s + 1,
                 scale_sum := (scale_sum s + (r - predicted_state s)\<^sup>2 / ?F) / c,
                 logdet_sum := logdet_sum s + ln ?F + real (nobs_effective s + 1) * ln c\<rparr>)"
        using False Num pos by (simp add: scale_state_def Let_def)
      have a2: "c * predicted_state_cov s * (1 - predicted_state_cov s / ?F) + c * Q
          = c * (predicted_state_cov s * (1 - predicted_state_cov s / ?F) + Q)"
        by (simp add: algebra_simps)
      have a3: "scale_sum s / c + (r - predicted_state s)\<^sup>2 / (c * ?F)
          = (scale_sum s + (r - predicted_state s)\<^sup>2 / ?F) / c"
        using F0 by (simp add: add_divide_distrib)
      have a4: "logdet_sum s + real (nobs_effective s) * ln c + (ln c + ln ?F)
          = logdet_sum s + ln ?F + real (nobs_effective s + 1) * ln c"
        by (simp add: algebra_simps)
      show ?thesis unfolding lhs rhs k l a2 a3 a4 ..
    qed
  qed
qed


lemma filter_pass_scale:
  "0 < c \<Longrightarrow>
     filter_pass (c * Q) (c * H) (scale_state c s) ys = map_option (scale_state c) (filter_pass Q H s ys)"
proof (induction ys arbitrary: s)
  case Nil
  show ?case by simp
next
  case (Cons y ys)
  show ?case
  proof (cases "filter_step Q H s y")
    case None
    with Cons.prems show ?thesis by (simp add: filter_step_scale)
  next
    case (Some s')
    with Cons.prems Cons.IH [of s'] show ?thesis by (simp add: filter_step_scale)
  qed
qed

lemma scale_state_init: "scale_state c filter_init = filter_init"
  by (simp add: scale_state_def filter_init_def)

lemma filter_pass_init_scale:
  "0 < c \<Longrightarrow>
     filter_pass (c * Q) (c * H) filter_init ys
       = map_option (scale_state c) (filter_pass Q H filter_init ys)"
  using filter_pass_scale [of c Q H filter_init ys] by (simp add: scale_state_init)

lemma llf_of_scale_state:
  "llf_of (scale_state c s) =
     - (1 / 2) * (real (nobs_diffuse s + nobs_effective s) * ln (2 * pi) + logdet_sum s
        + real (nobs_effective s) * ln c + scale_sum s / c)"
  by (simp add: llf_of_def scale_state_def)

lemma concentrated_of_attained:
  assumes "concentrated_of s = Some (sc, l)"
  shows "0 < sc \<and> sc = scale_sum s / real (nobs_effective s) \<and> 0 < nobs_effective s
     \<and> llf_of (scale_state sc s) = l"
proof -
  from assms have n: "0 < nobs_effective s" and S: "0 < scale_sum s"
    and sc: "sc = scale_sum s / real (nobs_effective s)"
    and l: "l = - (1 / 2) * (real (nobs_diffuse s + nobs_effective s) * ln (2 * pi)
        + logdet_sum s + real (nobs_effective s) * ln sc + real (nobs_effective s))"
    by (auto simp: concentrated_of_def Let_def split: if_splits)
  have pos: "0 < sc" using n S sc by simp
  have "scale_sum s / sc = real (nobs_effective s)" using n S sc by simp
  then show ?thesis using pos sc n l by (simp add: llf_of_scale_state)
qed

lemma concentrated_of_maximal:
  assumes "concentrated_of s = Some (sc, l)" and "0 < c"
  shows "llf_of (scale_state c s) \<le> l"
proof -
  let ?n = "real (nobs_effective s)"
  from concentrated_of_attained [OF assms(1)]
  have pos: "0 < sc" and sc: "sc = scale_sum s / ?n" and n: "0 < nobs_effective s"
    and l: "llf_of (scale_state sc s) = l" by auto
  have S: "scale_sum s = ?n * sc" using sc n by simp
  have "ln (sc / c) \<le> sc / c - 1" using pos assms(2) by (intro ln_le_minus_one) simp
  then have "ln sc - ln c \<le> sc / c - 1" using pos assms(2) by (simp add: ln_div)
  then have "?n * (ln sc - ln c) \<le> ?n * (sc / c - 1)" using n by (intro mult_left_mono) simp_all
  then have "?n * ln sc + ?n \<le> ?n * ln c + ?n * sc / c" by (simp add: algebra_simps)
  then have "?n * ln sc + scale_sum s / sc \<le> ?n * ln c + scale_sum s / c"
    using S pos by simp
  then have "real (nobs_diffuse s + nobs_effective s) * ln (2 * pi) + logdet_sum s
        + ?n * ln sc + scale_sum s / sc
      \<le> real (nobs_diffuse s + nobs_effective s) * ln (2 * pi) + logdet_sum s
        + ?n * ln c + scale_sum s / c"
    by linarith
  then show ?thesis unfolding l [symmetric] llf_of_scale_state
    by (intro mult_left_mono_neg) simp_all
qed

lemma concentrated_of_scale_state:
  assumes "0 < c"
  shows "concentrated_of (scale_state c s) = map_option (\<lambda>(sc, l). (sc / c, l)) (concentrated_of s)"
proof (cases "nobs_effective s = 0 \<or> scale_sum s \<le> 0")
  case True
  then have "nobs_effective s = 0 \<or> scale_sum s / c \<le> 0"
    using assms by (auto simp: divide_le_0_iff)
  with True show ?thesis by (auto simp: concentrated_of_def scale_state_def)
next
  case False
  then have n: "0 < nobs_effective s" and S: "0 < scale_sum s" by auto
  define k where "k = real (nobs_effective s)"
  define sc where "sc = scale_sum s / k"
  define A where "A = real (nobs_diffuse s + nobs_effective s) * ln (2 * pi)"
  have k: "0 < k" using n by (simp add: k_def)
  have pos: "0 < sc" using k S by (simp add: sc_def)
  have "0 < scale_sum s / c" using S assms by (rule divide_pos_pos)
  then have nS: "\<not> (nobs_effective s = 0 \<or> scale_sum s / c \<le> 0)" using n by simp
  have e: "scale_sum s / c / k = sc / c" by (simp add: sc_def)
  have lhs: "concentrated_of (scale_state c s) =
      Some (scale_sum s / c / k, - (1 / 2) * (A + (logdet_sum s + k * ln c)
        + k * ln (scale_sum s / c / k) + k))"
    using nS unfolding concentrated_of_def Let_def k_def A_def
    by (simp add: scale_state_def)
  have rhs: "map_option (\<lambda>(sc, l). (sc / c, l)) (concentrated_of s) =
      Some (sc / c, - (1 / 2) * (A + logdet_sum s + k * ln sc + k))"
    using False unfolding concentrated_of_def Let_def k_def A_def sc_def
    by simp
  have "ln (sc / c) = ln sc - ln c" using pos assms by (simp add: ln_div)
  then have "k * ln (sc / c) = k * ln sc - k * ln c"
    by (simp only: right_diff_distrib)
  then have "A + (logdet_sum s + k * ln c) + k * ln (sc / c) + k
      = A + logdet_sum s + k * ln sc + k"
    by linarith
  then show ?thesis unfolding lhs rhs e by simp
qed

section \<open>The pass returns, and what it counts\<close>

lemma filter_step_total:
  assumes "0 \<le> Q" "0 \<le> H" "0 < Q + H" "filter_inv s"
  shows "\<exists>s'. filter_step Q H s y = Some s' \<and> filter_inv s'"
proof (cases y)
  case NaN
  with assms show ?thesis by (auto simp: filter_inv_def)
next
  case (Num r)
  show ?thesis
  proof (cases "diffuse s")
    case True
    with Num assms show ?thesis by (simp add: filter_inv_def)
  next
    case False
    define p where "p = predicted_state_cov s"
    have p: "0 < p" using False assms(4) by (simp add: filter_inv_def p_def)
    then have F: "0 < p + H" using assms(2) by simp
    have eq: "p * (1 - p / (p + H)) = p * H / (p + H)" using F by (simp add: field_simps)
    have "0 < p * H / (p + H) + Q"
    proof (cases "H = 0")
      case True
      then show ?thesis using assms(3) by simp
    next
      case H: False
      then have "0 < p * H / (p + H)" using p F assms(2) by simp
      then show ?thesis using assms(1) by simp
    qed
    then have "0 < p * (1 - p / (p + H)) + Q" by (simp only: eq)
    then show ?thesis using Num False F
      by (simp add: filter_inv_def Let_def p_def [symmetric] del: mult_zero_left)
  qed
qed

lemma filter_pass_total:
  assumes "0 \<le> Q" "0 \<le> H" "0 < Q + H"
  shows "filter_inv s \<Longrightarrow> \<exists>s'. filter_pass Q H s ys = Some s'"
proof (induction ys arbitrary: s)
  case Nil
  show ?case by simp
next
  case (Cons y ys)
  from filter_step_total [OF assms Cons.prems, of y]
  obtain s1 where "filter_step Q H s y = Some s1" "filter_inv s1" by blast
  with Cons.IH [of s1] show ?case by simp
qed

lemma filter_inv_init: "filter_inv filter_init"
  by (simp add: filter_inv_def filter_init_def)

lemma filter_step_counts:
  assumes "filter_step Q H s y = Some s'"
  shows "diffuse s' = (diffuse s \<and> \<not> is_real y) \<and>
    nobs_diffuse s' = nobs_diffuse s + (if diffuse s \<and> is_real y then 1 else 0) \<and>
    nobs_effective s' = nobs_effective s + (if \<not> diffuse s \<and> is_real y then 1 else 0)"
  using assms by (cases y) (auto simp: Let_def split: if_splits)

lemma filter_pass_counts:
  "filter_pass Q H s ys = Some s' \<Longrightarrow>
     diffuse s' = (diffuse s \<and> filter is_real ys = []) \<and>
     nobs_diffuse s' = nobs_diffuse s + (if diffuse s \<and> filter is_real ys \<noteq> [] then 1 else 0) \<and>
     nobs_diffuse s' + nobs_effective s'
       = nobs_diffuse s + nobs_effective s + length (filter is_real ys)"
proof (induction ys arbitrary: s)
  case Nil
  then show ?case by simp
next
  case (Cons y ys)
  then obtain s1 where 1: "filter_step Q H s y = Some s1" and 2: "filter_pass Q H s1 ys = Some s'"
    by (auto split: option.splits)
  from filter_step_counts [OF 1] Cons.IH [OF 2] show ?case by auto
qed

lemma filter_pass_init_counts:
  assumes "filter_pass Q H filter_init ys = Some s"
  shows "nobs_effective s = length (filter is_real ys) - 1"
    and "nobs_diffuse s = (if filter is_real ys = [] then 0 else 1)"
  using filter_pass_counts [OF assms] by (auto simp: filter_init_def)

lemma filter_step_sums:
  assumes "filter_step Q H s y = Some s'"
  shows "scale_sum s' = scale_sum s + (\<Sum>(v, F) \<leftarrow> forecast_error H s y. v\<^sup>2 / F) \<and>
    logdet_sum s' = logdet_sum s + (\<Sum>(v, F) \<leftarrow> forecast_error H s y. ln F) \<and>
    nobs_effective s' = nobs_effective s + length (forecast_error H s y)"
  using assms by (cases y) (auto simp: Let_def forecast_error_def split: if_splits)

lemma filter_pass_sums:
  "filter_pass Q H s ys = Some s' \<Longrightarrow>
     scale_sum s' = scale_sum s + (\<Sum>(v, F) \<leftarrow> forecast_errors Q H s ys. v\<^sup>2 / F) \<and>
     logdet_sum s' = logdet_sum s + (\<Sum>(v, F) \<leftarrow> forecast_errors Q H s ys. ln F) \<and>
     nobs_effective s' = nobs_effective s + length (forecast_errors Q H s ys)"
proof (induction ys arbitrary: s)
  case Nil
  then show ?case by simp
next
  case (Cons y ys)
  then obtain s1 where 1: "filter_step Q H s y = Some s1" and 2: "filter_pass Q H s1 ys = Some s'"
    by (auto split: option.splits)
  from filter_step_sums [OF 1] Cons.IH [OF 2] 1 show ?case by simp
qed

section \<open>The likelihood of the two classes\<close>

lemma LocalLevel_loglike_eq:
  "LocalLevel_loglike endog [Num q, Num h] = map_option (Pair 1) (loglike q h endog)"
  unfolding LocalLevel_loglike_def LocalLevel_init_base
  by (simp add: LocalLevel_update_def MLEModel_update_def getitem_def then_do_def
      set_state_cov_def set_obs_cov_def setitem2_def MLEModel_loglike_def local_level_form_def
      the_scalar_def)

lemma LocalLevelConcentrated_loglike_eq:
  "LocalLevelConcentrated_loglike endog [Num h] = loglike_concentrated 1 h endog"
  unfolding LocalLevelConcentrated_loglike_def LocalLevelConcentrated_init_base
  by (simp add: LocalLevelConcentrated_update_def MLEModel_update_def getitem_def then_do_def
      set_obs_cov_def setitem2_def MLEModel_loglike_def local_level_form_def
      the_scalar_def)

lemma loglike_concentrated_rescale:
  assumes "0 < c"
  shows "loglike_concentrated (c * Q) (c * H) endog
    = map_option (\<lambda>(sc, l). (sc / c, l)) (loglike_concentrated Q H endog)"
  unfolding loglike_concentrated_def filter_pass_init_scale [OF assms]
  by (cases "filter_pass Q H filter_init endog") (simp_all add: concentrated_of_scale_state [OF assms])

lemma loglike_rescale:
  assumes "0 < c" and "filter_pass Q H filter_init endog = Some s"
  shows "loglike (c * Q) (c * H) endog = Some (llf_of (scale_state c s))"
  unfolding loglike_def filter_pass_init_scale [OF assms(1)] assms(2) by simp


lemma concentrated_of_Some_iff:
  "(\<exists>r. concentrated_of s = Some r) = (0 < nobs_effective s \<and> 0 < scale_sum s)"
  by (auto simp: concentrated_of_def Let_def)

text \<open>
  Claim C4. For \<open>LocalLevelConcentrated\<close> with \<open>ratio.irregular = h \<ge> 0\<close>
  the filtering pass always returns, and the concentrated evaluation has a result
  exactly when the accumulated sum of squared normalized prediction errors is positive.
  The scale it returns is that sum divided by the number of observations it is taken
  over, which is the number of non-missing observations less the diffuse one (missing
  and diffuse observations are in neither). Substituting the scale back gives the
  likelihood with no search: the log-likelihood returned is the one of \<open>LocalLevel\<close>
  at \<open>var.level = scale\<close>, \<open>var.irregular = scale * h\<close>, and no other scale
  \<open>c > 0\<close> gives a larger one, so the scale is the maximum-likelihood estimate.
  The filter is modelled from the spec.
\<close>

theorem concentrated_scale_estimate:
  assumes "0 \<le> h"
  shows "(\<exists>s. filter_pass 1 h filter_init endog = Some s) \<and>
    ((\<exists>r. LocalLevelConcentrated_loglike endog [Num h] = Some r)
       = (0 < (\<Sum>(v, F) \<leftarrow> forecast_errors 1 h filter_init endog. v\<^sup>2 / F))) \<and>
    (LocalLevelConcentrated_loglike endog [Num h] = Some (scale, llf) \<longrightarrow>
       scale = (\<Sum>(v, F) \<leftarrow> forecast_errors 1 h filter_init endog. v\<^sup>2 / F)
                 / real (length (forecast_errors 1 h filter_init endog)) \<and>
       length (forecast_errors 1 h filter_init endog) = length (filter is_real endog) - 1 \<and>
       LocalLevel_loglike endog [Num scale, Num (scale * h)] = Some (1, llf) \<and>
       (\<forall>c l. 0 < c \<and> LocalLevel_loglike endog [Num c, Num (c * h)] = Some (1, l)
          \<longrightarrow> l \<le> llf))"
proof -
  let ?fe = "forecast_errors 1 h filter_init endog"
  obtain s where fp: "filter_pass 1 h filter_init endog = Some s"
    using filter_pass_total [of 1 h filter_init endog] assms filter_inv_init by auto
  have S: "scale_sum s = (\<Sum>(v, F) \<leftarrow> ?fe. v\<^sup>2 / F)" and n: "nobs_effective s = length ?fe"
    using filter_pass_sums [OF fp] by (simp_all add: filter_init_def)
  have cnt: "length ?fe = length (filter is_real endog) - 1"
    using filter_pass_init_counts(1) [OF fp] n by simp
  have conc: "LocalLevelConcentrated_loglike endog [Num h] = concentrated_of s"
    by (simp add: LocalLevelConcentrated_loglike_eq loglike_concentrated_def fp)
  have full: "LocalLevel_loglike endog [Num c, Num (c * h)] = Some (1, llf_of (scale_state c s))"
    if "0 < c" for c
    using loglike_rescale [OF that fp] by (simp add: LocalLevel_loglike_eq)
  have nonempty: "0 < length ?fe" if "0 < (\<Sum>(v, F) \<leftarrow> ?fe. v\<^sup>2 / F)"
    using that by (cases ?fe) simp_all
  have iff: "(\<exists>r. LocalLevelConcentrated_loglike endog [Num h] = Some r)
       = (0 < (\<Sum>(v, F) \<leftarrow> ?fe. v\<^sup>2 / F))"
    unfolding conc concentrated_of_Some_iff S n using nonempty by blast
  have main: "scale = (\<Sum>(v, F) \<leftarrow> ?fe. v\<^sup>2 / F) / real (length ?fe) \<and>
       length ?fe = length (filter is_real endog) - 1 \<and>
       LocalLevel_loglike endog [Num scale, Num (scale * h)] = Some (1, llf) \<and>
       (\<forall>c l. 0 < c \<and> LocalLevel_loglike endog [Num c, Num (c * h)] = Some (1, l)
          \<longrightarrow> l \<le> llf)"
    if r: "LocalLevelConcentrated_loglike endog [Num h] = Some (scale, llf)"
  proof -
    from r conc have c: "concentrated_of s = Some (scale, llf)" by simp
    note a = concentrated_of_attained [OF c]
    have 1: "scale = (\<Sum>(v, F) \<leftarrow> ?fe. v\<^sup>2 / F) / real (length ?fe)"
      using a S n by simp
    have "0 < scale" and "llf_of (scale_state scale s) = llf" using a by blast+
    then have 3: "LocalLevel_loglike endog [Num scale, Num (scale * h)] = Some (1, llf)"
      using full [of scale] by (simp only:)
    have 4: "l \<le> llf" if "0 < c" "LocalLevel_loglike endog [Num c, Num (c * h)] = Some (1, l)"
      for c l
      using that full [OF that(1)] concentrated_of_maximal [OF c that(1)] by simp
    from 1 cnt 3 4 show ?thesis by blast
  qed
  from fp iff main show ?thesis by blast
qed

theorem concentrated_scale_estimate_witness:
  "(0::real) \<le> 1 \<and>
   LocalLevelConcentrated_loglike [Num 0, NaN, Num 1] [Num 1]
     = Some (1 / 4, - (1 / 2) * (2 * ln (2 * pi) + 1)) \<and>
   forecast_errors 1 1 filter_init [Num 0, NaN, Num 1] = [(1, 4)] \<and>
   length (filter is_real [Num 0, NaN, Num 1]) = 2 \<and>
   LocalLevel_loglike [Num 0, NaN, Num 1] [Num (1 / 4), Num (1 / 4)]
     = Some (1, - (1 / 2) * (2 * ln (2 * pi) + 1)) \<and>
   LocalLevel_loglike [Num 0, NaN, Num 1] [Num 1, Num 1]
     = Some (1, - (1 / 2) * (2 * ln (2 * pi) + ln 4 + 1 / 4)) \<and>
   - (1 / 2) * (2 * ln (2 * pi) + ln 4 + 1 / 4) \<le> - (1 / 2) * (2 * ln (2 * pi) + (1::real))"
proof -
  have e: "LocalLevelConcentrated_loglike [Num 0, NaN, Num 1] [Num 1]
      = Some (1 / 4, - (1 / 2) * (2 * ln (2 * pi) + 1))"
    by (simp add: LocalLevelConcentrated_loglike_eq loglike_concentrated_def filter_init_def
        concentrated_of_def Let_def ln_div)
  have f: "LocalLevel_loglike [Num 0, NaN, Num 1] [Num 1, Num 1]
      = Some (1, - (1 / 2) * (2 * ln (2 * pi) + ln 4 + 1 / 4))"
    by (simp add: LocalLevel_loglike_eq loglike_def filter_init_def llf_of_def Let_def)
  have g: "forecast_errors 1 1 filter_init [Num 0, NaN, Num 1] = [(1, 4)]"
    by (simp add: filter_init_def forecast_error_def Let_def)
  note t = concentrated_scale_estimate
    [of 1 "[Num 0, NaN, Num 1]" "1 / 4" "- (1 / 2) * (2 * ln (2 * pi) + 1)"]
  from t e have m: "LocalLevel_loglike [Num 0, NaN, Num 1] [Num (1 / 4), Num (1 / 4)]
      = Some (1, - (1 / 2) * (2 * ln (2 * pi) + 1))"
    by simp
  from t e have "\<forall>c l. 0 < c \<and> LocalLevel_loglike [Num 0, NaN, Num 1] [Num c, Num (c * 1)]
      = Some (1, l) \<longrightarrow> l \<le> - (1 / 2) * (2 * ln (2 * pi) + 1)"
    by simp
  from this [rule_format, of 1 "- (1 / 2) * (2 * ln (2 * pi) + ln 4 + 1 / 4)"] f
  have mx: "- (1 / 2) * (2 * ln (2 * pi) + ln 4 + 1 / 4) \<le> - (1 / 2) * (2 * ln (2 * pi) + (1::real))"
    by simp
  from e f g m mx show ?thesis by simp
qed

text \<open>
  Claim C3. For the local level model the two normalizations give the same likelihood
  up to the reparameterization: with the observation noise variance fixed to 1 and the
  parameter \<open>q > 0\<close>, and with the state noise variance fixed to 1 (as
  \<open>LocalLevelConcentrated\<close> does) and the parameter \<open>h = 1 / q\<close>, the
  concentrated evaluations have a result on the same samples, the same log-likelihood,
  and scales that differ by the factor \<open>q\<close>, so that both imply the same two
  variances. The filter is modelled from the spec.
\<close>

theorem normalizations_agree:
  assumes "0 < q"
  shows "LocalLevelConcentrated_loglike endog [Num (1 / q)]
      = map_option (\<lambda>(sc, l). (q * sc, l)) (loglike_obs_normalized endog q)"
proof -
  have "0 < 1 / q" using assms by simp
  from loglike_concentrated_rescale [OF this, of q 1 endog] assms
  show ?thesis
    by (simp add: LocalLevelConcentrated_loglike_eq loglike_obs_normalized_def mult.commute)
qed

theorem normalizations_agree_witness:
  "(0::real) < 2 \<and>
   loglike_obs_normalized [Num 0, Num 1] 2 = Some (1 / 4, - (1 / 2) * (2 * ln (2 * pi) + 1)) \<and>
   LocalLevelConcentrated_loglike [Num 0, Num 1] [Num (1 / 2)]
     = Some (1 / 2, - (1 / 2) * (2 * ln (2 * pi) + 1))"
proof -
  have e: "loglike_obs_normalized [Num 0, Num 1] 2
      = Some (1 / 4, - (1 / 2) * (2 * ln (2 * pi) + 1))"
    by (simp add: loglike_obs_normalized_def loglike_concentrated_def filter_init_def
        concentrated_of_def Let_def ln_div)
  from normalizations_agree [of 2 "[Num 0, Num 1]"] e show ?thesis by simp
qed

section \<open>Dimension of the parameter vectors and the output of fit\<close>

lemma LocalLevel_update_writes:
  "LocalLevel_update su (snd (LocalLevel_init (MLEModel_init 1 1))) p =
     (case su p of
        [] \<Rightarrow> (Some IndexError, snd (LocalLevel_init (MLEModel_init 1 1)))
      | [a] \<Rightarrow> (Some IndexError,
          (snd (LocalLevel_init (MLEModel_init 1 1)))\<lparr>state_cov := [[a]]\<rparr>)
      | a # b # rest \<Rightarrow> (None,
          (snd (LocalLevel_init (MLEModel_init 1 1)))\<lparr>state_cov := [[a]], obs_cov := [[b]]\<rparr>))"
  unfolding LocalLevel_init_base
  by (simp add: LocalLevel_update_def getitem_def then_do_def set_state_cov_def set_obs_cov_def
      setitem2_def split: list.splits)

lemma LocalLevelConcentrated_update_writes:
  "LocalLevelConcentrated_update su (snd (LocalLevelConcentrated_init (MLEModel_init 1 1))) p =
     (case su p of
        [] \<Rightarrow> (Some IndexError, snd (LocalLevelConcentrated_init (MLEModel_init 1 1)))
      | a # rest \<Rightarrow> (None,
          (snd (LocalLevelConcentrated_init (MLEModel_init 1 1)))\<lparr>obs_cov := [[a]]\<rparr>))"
  unfolding LocalLevelConcentrated_init_base
  by (simp add: LocalLevelConcentrated_update_def getitem_def set_obs_cov_def
      setitem2_def split: list.splits)

lemma LocalLevelConcentrated_loglike_one:
  assumes "LocalLevelConcentrated_loglike endog p = Some r" and "length p = 1"
  shows "\<exists>h. p = [Num h] \<and> loglike_concentrated 1 h endog = Some r"
proof -
  from assms(2) obtain a where p: "p = [a]" by (cases p) auto
  show ?thesis
  proof (cases a)
    case (Num h)
    with assms(1) p show ?thesis by (simp add: LocalLevelConcentrated_loglike_eq)
  next
    case NaN
    with assms(1) p show ?thesis
      unfolding LocalLevelConcentrated_loglike_def LocalLevelConcentrated_init_base
      by (simp add: LocalLevelConcentrated_update_def MLEModel_update_def getitem_def
          set_obs_cov_def setitem2_def MLEModel_loglike_def local_level_form_def the_scalar_def)
  qed
qed

lemma LocalLevel_loglike_two:
  assumes "LocalLevel_loglike endog p = Some r" and "length p = 2"
  shows "\<exists>q h. p = [Num q, Num h] \<and> fst r = 1 \<and> loglike q h endog = Some (snd r)"
proof -
  from assms(2) obtain a b where p: "p = [a, b]"
    by (cases p; cases "tl p") auto
  have nan: "LocalLevel_loglike endog [a, b] = None" if "a = NaN \<or> b = NaN"
    using that
    unfolding LocalLevel_loglike_def LocalLevel_init_base
    by (cases a; cases b)
      (simp_all add: LocalLevel_update_def MLEModel_update_def getitem_def then_do_def
        set_state_cov_def set_obs_cov_def setitem2_def MLEModel_loglike_def local_level_form_def
        the_scalar_def)
  from assms(1) p nan obtain q h where "a = Num q" "b = Num h"
    by (cases a; cases b) auto
  with assms(1) p show ?thesis by (auto simp: LocalLevel_loglike_eq)
qed

lemma MLEModel_fit_Some:
  assumes "MLEModel_fit loglike_at start search = Some r"
  shows "res_params r = fst (search (\<lambda>params. map_option snd (loglike_at params)) start) \<and>
    res_iterations r = snd (search (\<lambda>params. map_option snd (loglike_at params)) start) \<and>
    loglike_at (res_params r) = Some (res_scale r, res_llf r)"
  using assms unfolding MLEModel_fit_def
  by (auto split: prod.splits option.splits)

text \<open>
  Claim C5. The parameter vector of the concentrated formulation has one entry less
  than that of the unconcentrated one: \<open>LocalLevelConcentrated\<close> has the one
  parameter \<open>ratio.irregular\<close>, \<open>LocalLevel\<close> the two parameters
  \<open>var.level\<close> and \<open>var.irregular\<close>. They are the parameters of the model: on a
  model of one series \<open>update\<close> writes the first two entries it is given into
  \<open>state_cov\<close> and \<open>obs_cov\<close> (\<open>LocalLevel\<close>), respectively the first
  one into \<open>obs_cov\<close> (\<open>LocalLevelConcentrated\<close>), and raises IndexError
  when there are fewer. The output of the concentrated \<open>fit\<close>, for a search that
  hands back a vector as long as its start, is a vector \<open>[h]\<close> of that one
  parameter together with the estimated scale and the log-likelihood of the
  concentrated pass with \<open>state_cov = 1\<close>, \<open>obs_cov = h\<close>; that of the
  unconcentrated \<open>fit\<close> is a vector of two parameters, the scale 1 and the
  log-likelihood of the plain pass. The filter and \<open>fit\<close> are modelled from the
  spec.
\<close>

theorem concentrated_one_parameter_less:
  "length LocalLevelConcentrated_start_params + 1 = length LocalLevel_start_params \<and>
   length LocalLevel_start_params = 2 \<and>
   length LocalLevelConcentrated_start_params = 1 \<and>
   LocalLevel_param_names = [''var.level'', ''var.irregular''] \<and>
   LocalLevelConcentrated_param_names = [''ratio.irregular''] \<and>
   length LocalLevel_param_names = length LocalLevel_start_params \<and>
   length LocalLevelConcentrated_param_names = length LocalLevelConcentrated_start_params \<and>
   LocalLevel_update su (snd (LocalLevel_init (MLEModel_init 1 1))) p =
     (case su p of
        [] \<Rightarrow> (Some IndexError, snd (LocalLevel_init (MLEModel_init 1 1)))
      | [a] \<Rightarrow> (Some IndexError,
          (snd (LocalLevel_init (MLEModel_init 1 1)))\<lparr>state_cov := [[a]]\<rparr>)
      | a # b # rest \<Rightarrow> (None,
          (snd (LocalLevel_init (MLEModel_init 1 1)))\<lparr>state_cov := [[a]], obs_cov := [[b]]\<rparr>)) \<and>
   LocalLevelConcentrated_update su (snd (LocalLevelConcentrated_init (MLEModel_init 1 1))) p =
     (case su p of
        [] \<Rightarrow> (Some IndexError, snd (LocalLevelConcentrated_init (MLEModel_init 1 1)))
      | a # rest \<Rightarrow> (None,
          (snd (LocalLevelConcentrated_init (MLEModel_init 1 1)))\<lparr>obs_cov := [[a]]\<rparr>)) \<and>
   ((\<forall>f x. length (fst (search f x)) = length x) \<longrightarrow>
      (LocalLevelConcentrated_fit endog search = Some r \<longrightarrow>
         (\<exists>h. res_params r = [Num h] \<and>
              loglike_concentrated 1 h endog = Some (res_scale r, res_llf r))) \<and>
      (LocalLevel_fit endog search = Some r' \<longrightarrow>
         (\<exists>q h. res_params r' = [Num q, Num h] \<and> res_scale r' = 1 \<and>
              loglike q h endog = Some (res_llf r'))) \<and>
      (LocalLevelConcentrated_fit endog search = Some r \<and> LocalLevel_fit endog search = Some r'
         \<longrightarrow> length (res_params r) + 1 = length (res_params r')))"
proof -
  have dims: "length LocalLevelConcentrated_start_params + 1 = length LocalLevel_start_params \<and>
   length LocalLevel_start_params = 2 \<and>
   length LocalLevelConcentrated_start_params = 1 \<and>
   LocalLevel_param_names = [''var.level'', ''var.irregular''] \<and>
   LocalLevelConcentrated_param_names = [''ratio.irregular''] \<and>
   length LocalLevel_param_names = length LocalLevel_start_params \<and>
   length LocalLevelConcentrated_param_names = length LocalLevelConcentrated_start_params"
    by (simp add: LocalLevel_start_params_def LocalLevelConcentrated_start_params_def
        LocalLevel_param_names_def LocalLevelConcentrated_param_names_def)
  have conc: "\<exists>h. res_params r = [Num h] \<and>
      loglike_concentrated 1 h endog = Some (res_scale r, res_llf r)"
    if len: "\<forall>f x. length (fst (search f x)) = length x"
      and fit: "LocalLevelConcentrated_fit endog search = Some r"
  proof -
    note f = MLEModel_fit_Some [OF fit [unfolded LocalLevelConcentrated_fit_def]]
    have "length (res_params r) = 1"
      using f len by (simp add: LocalLevelConcentrated_start_params_def)
    with f LocalLevelConcentrated_loglike_one show ?thesis by blast
  qed
  have full: "\<exists>q h. res_params r' = [Num q, Num h] \<and> res_scale r' = 1 \<and>
      loglike q h endog = Some (res_llf r')"
    if len: "\<forall>f x. length (fst (search f x)) = length x"
      and fit: "LocalLevel_fit endog search = Some r'"
  proof -
    note f = MLEModel_fit_Some [OF fit [unfolded LocalLevel_fit_def]]
    have "length (res_params r') = 2"
      using f len by (simp add: LocalLevel_start_params_def)
    with f LocalLevel_loglike_two [of endog "res_params r'" "(res_scale r', res_llf r')"]
    show ?thesis by auto
  qed
  have lens: "length (res_params r) + 1 = length (res_params r')"
    if "\<forall>f x. length (fst (search f x)) = length x"
      and "LocalLevelConcentrated_fit endog search = Some r"
      and "LocalLevel_fit endog search = Some r'"
    using conc [OF that(1,2)] full [OF that(1,3)] by auto
  from dims LocalLevel_update_writes [of su p] LocalLevelConcentrated_update_writes [of su p]
    conc full lens
  show ?thesis by blast
qed

theorem concentrated_one_parameter_less_witness:
  "(\<forall>f x. length (fst ((\<lambda>f x. (x, 0)) (f :: ndarray \<Rightarrow> real option) (x :: ndarray)))
      = length x) \<and>
   LocalLevelConcentrated_fit [Num 0, NaN, Num 1] (\<lambda>f x. (x, 0)) =
     Some \<lparr> res_params = [Num 1], res_scale = 1 / 4,
            res_llf = - (1 / 2) * (2 * ln (2 * pi) + 1), res_iterations = 0 \<rparr> \<and>
   loglike_concentrated 1 1 [Num 0, NaN, Num 1] = Some (1 / 4, - (1 / 2) * (2 * ln (2 * pi) + 1)) \<and>
   LocalLevel_fit [Num 0, NaN, Num 1] (\<lambda>f x. (x, 0)) =
     Some \<lparr> res_params = [Num 1, Num 1], res_scale = 1,
            res_llf = - (1 / 2) * (2 * ln (2 * pi) + ln 4 + 1 / 4), res_iterations = 0 \<rparr> \<and>
   loglike 1 1 [Num 0, NaN, Num 1] = Some (- (1 / 2) * (2 * ln (2 * pi) + ln 4 + 1 / 4))"
proof -
  have a: "LocalLevelConcentrated_fit [Num 0, NaN, Num 1] (\<lambda>f x. (x, 0)) =
     Some \<lparr> res_params = [Num 1], res_scale = 1 / 4,
            res_llf = - (1 / 2) * (2 * ln (2 * pi) + 1), res_iterations = 0 \<rparr>"
    by (simp add: LocalLevelConcentrated_fit_def MLEModel_fit_def
        LocalLevelConcentrated_start_params_def LocalLevelConcentrated_loglike_eq
        loglike_concentrated_def filter_init_def concentrated_of_def Let_def ln_div)
  have b: "LocalLevel_fit [Num 0, NaN, Num 1] (\<lambda>f x. (x, 0)) =
     Some \<lparr> res_params = [Num 1, Num 1], res_scale = 1,
            res_llf = - (1 / 2) * (2 * ln (2 * pi) + ln 4 + 1 / 4), res_iterations = 0 \<rparr>"
    by (simp add: LocalLevel_fit_def MLEModel_fit_def LocalLevel_start_params_def
        LocalLevel_loglike_eq loglike_def filter_init_def llf_of_def Let_def)
  note t = concentrated_one_parameter_less
    [of id "[]" "\<lambda>f x. (x, 0)" "[Num 0, NaN, Num 1]"
      "\<lparr> res_params = [Num 1], res_scale = 1 / 4,
         res_llf = - (1 / 2) * (2 * ln (2 * pi) + 1), res_iterations = 0 \<rparr>"
      "\<lparr> res_params = [Num 1, Num 1], res_scale = 1,
         res_llf = - (1 / 2) * (2 * ln (2 * pi) + ln 4 + 1 / 4), res_iterations = 0 \<rparr>"]
  from t a b show ?thesis by simp
qed

end
